theory Spec2Isabelle
  imports Complex_Main
begin

section \<open>Python values, exceptions and strings\<close>

text \<open>
  The validator of \<^verbatim>\<open>src/validators.py\<close> works on a dictionary of loosely typed values.
  A value is one of the scalar kinds a decoded JSON object can hold. A finite float is
  represented by the rational number it denotes (only its truncation is ever used); the
  three special floats are constructors of their own.

  Strings are lists of 8-bit characters. The model reads them as ASCII text: \<open>lower\<close> maps
  the letters A to Z and leaves every other character alone, and the white space of
  \<open>strip\<close> and of the regular expression class \<open>\s\<close> is the ASCII white space of Python's
  \<open>str.isspace\<close>, which counts the four separators 0x1C to 0x1F. \<open>int\<close> of an ASCII string
  skips a smaller set (see \<open>int_space\<close>). The three symbols outside ASCII that the messages
  of the source contain are written as their UTF-8 bytes.
\<close>

datatype error = ValueError | TypeError | OverflowError | AttributeError

datatype pyfloat = Finite rat | PosInf | NegInf | NaN

datatype pyval = PNone | PBool bool | PInt int | PFloat pyfloat | PStr string

definition whitespace :: "char list" where
  "whitespace = [CHR 0x09, CHR 0x0A, CHR 0x0B, CHR 0x0C, CHR 0x0D,
                 CHR 0x1C, CHR 0x1D, CHR 0x1E, CHR 0x1F, CHR 0x20]"

definition is_space :: "char \<Rightarrow> bool" where
  "is_space c = (c \<in> set whitespace)"

definition is_digit :: "char \<Rightarrow> bool" where
  "is_digit c = (c \<in> set ''0123456789'')"

definition lower_char :: "char \<Rightarrow> char" where
  "lower_char c =
     (case map_of (zip ''ABCDEFGHIJKLMNOPQRSTUVWXYZ'' ''abcdefghijklmnopqrstuvwxyz'') c of
        Some l \<Rightarrow> l
      | None \<Rightarrow> c)"

definition lower :: "string \<Rightarrow> string" where
  "lower s = map lower_char s"

definition strip :: "string \<Rightarrow> string" where
  "strip s = rev (dropWhile is_space (rev (dropWhile is_space s)))"

text \<open>\<open>sub in s\<close> for strings: \<open>sub\<close> occurs in \<open>s\<close> as a contiguous run.\<close>

fun str_contains :: "string \<Rightarrow> string \<Rightarrow> bool" where
  "str_contains sub [] = (sub = [])"
| "str_contains sub (c # cs) = (take (length sub) (c # cs) = sub \<or> str_contains sub cs)"

text \<open>\<open>sep.join(xs)\<close>.\<close>

fun join :: "string \<Rightarrow> string list \<Rightarrow> string" where
  "join sep [] = []"
| "join sep [x] = x"
| "join sep (x # y # ys) = x @ sep @ join sep (y # ys)"

text \<open>Decimal digits: the value of a digit character and the character of a value.\<close>

definition digit_val :: "char \<Rightarrow> nat" where
  "digit_val c = (case map_of (zip ''0123456789'' [0, 1, 2, 3, 4, 5, 6, 7, 8, 9]) c of
                    Some v \<Rightarrow> v
                  | None \<Rightarrow> 0)"

definition digit_char :: "nat \<Rightarrow> char" where
  "digit_char n = ''0123456789'' ! (n mod 10)"

text \<open>\<open>str(n)\<close> of a natural number and of an integer, as an f-string renders them.\<close>

fun str_nat :: "nat \<Rightarrow> string" where
  "str_nat n = (if n < 10 then [digit_char n] else str_nat (n div 10) @ [digit_char (n mod 10)])"

declare str_nat.simps [simp del]

definition str_int :: "int \<Rightarrow> string" where
  "str_int i = (if i < 0 then CHR ''-'' # str_nat (nat (- i)) else str_nat (nat i))"

text \<open>
  \<open>int(s)\<close> of a string, base ten: white space around, an optional sign, then digits, where
  single underscores may stand between two digits. Anything else raises \<open>ValueError\<close>, and
  so does a numeral of more digits (underscores not counted) than the interpreter's limit,
  4300 unless configured otherwise. The white space skipped around an ASCII numeral is that
  of the interpreter's \<open>Py_ISSPACE\<close>: tab to carriage return and the blank, without the
  separators 0x1C to 0x1F that \<open>str.strip\<close> removes.
\<close>

definition int_space :: "char \<Rightarrow> bool" where
  "int_space c = (c \<in> set [CHR 0x09, CHR 0x0A, CHR 0x0B, CHR 0x0C, CHR 0x0D, CHR 0x20])"

definition MAX_STR_DIGITS :: nat where
  "MAX_STR_DIGITS = 4300"

fun digits_more :: "nat \<Rightarrow> string \<Rightarrow> nat option" where
  "digits_more acc [] = Some acc"
| "digits_more acc [c] = (if is_digit c then Some (10 * acc + digit_val c) else None)"
| "digits_more acc (c # d # ds) =
     (if is_digit c then digits_more (10 * acc + digit_val c) (d # ds)
      else if c = CHR ''_'' \<and> is_digit d then digits_more (10 * acc + digit_val d) ds
      else None)"

definition parse_digits :: "string \<Rightarrow> nat option" where
  "parse_digits s = (case s of [] \<Rightarrow> None
                     | c # cs \<Rightarrow> if is_digit c then digits_more (digit_val c) cs else None)"

definition int_of_str :: "string \<Rightarrow> error + int" where
  "int_of_str s =
     (let t = rev (dropWhile int_space (rev (dropWhile int_space s)));
          neg = (take 1 t = ''-'');
          u = (if take 1 t = ''-'' \<or> take 1 t = ''+'' then drop 1 t else t)
      in case parse_digits u of
           None \<Rightarrow> Inl ValueError
         | Some n \<Rightarrow>
             if MAX_STR_DIGITS < length (filter is_digit u) then Inl ValueError
             else Inr (if neg then - int n else int n))"

text \<open>
  \<open>int(v)\<close>: \<open>None\<close> raises \<open>TypeError\<close>, a boolean is 0 or 1, a finite float is truncated
  towards zero, an infinite float raises \<open>OverflowError\<close> and a NaN \<open>ValueError\<close>.
\<close>

definition trunc :: "rat \<Rightarrow> int" where
  "trunc q = (if 0 \<le> q then \<lfloor>q\<rfloor> else \<lceil>q\<rceil>)"

fun py_int :: "pyval \<Rightarrow> error + int" where
  "py_int PNone = Inl TypeError"
| "py_int (PBool b) = Inr (if b then 1 else 0)"
| "py_int (PInt n) = Inr n"
| "py_int (PFloat (Finite q)) = Inr (trunc q)"
| "py_int (PFloat PosInf) = Inl OverflowError"
| "py_int (PFloat NegInf) = Inl OverflowError"
| "py_int (PFloat NaN) = Inl ValueError"
| "py_int (PStr s) = int_of_str s"

text \<open>The characters outside ASCII of the messages, as UTF-8.\<close>

definition rupee :: string where
  "rupee = [CHR 0xE2, CHR 0x82, CHR 0xB9]"

definition warning_sign :: string where
  "warning_sign = [CHR 0xE2, CHR 0x9A, CHR 0xA0, CHR 0xEF, CHR 0xB8, CHR 0x8F]"

definition cross_mark :: string where
  "cross_mark = [CHR 0xE2, CHR 0x9D, CHR 0x8C]"

definition apostrophe :: string where
  "apostrophe = [CHR 0x27]"

section \<open>The city, budget and date type validators\<close>

definition SUPPORTED_CITIES :: "string list" where
  "SUPPORTED_CITIES =
     [''mumbai'', ''delhi'', ''bangalore'', ''bengaluru'', ''hyderabad'',
      ''chennai'', ''kolkata'', ''pune'', ''ahmedabad'', ''jaipur'',
      ''surat'', ''lucknow'', ''kanpur'', ''nagpur'', ''indore'',
      ''thane'', ''bhopal'', ''visakhapatnam'', ''pimpri-chinchwad'',
      ''patna'', ''gurgaon'', ''gurugram'', ''noida'', ''ghaziabad'']"

definition MIN_BUDGET :: int where
  "MIN_BUDGET = 500"

definition MAX_BUDGET :: int where
  "MAX_BUDGET = 50000"

text \<open>
  Each field validator returns \<open>(valid, message, corrected value)\<close>. A method call on a
  value that is not a string (\<open>city.lower()\<close>) raises \<open>AttributeError\<close>. The source's names
  start with an underscore, which a constant's name cannot.
\<close>

definition validate_city :: "pyval \<Rightarrow> error + bool \<times> string \<times> string" where
  "validate_city v =
     (case v of
        PStr city \<Rightarrow>
          (let city_lower = strip (lower city) in
           if city_lower = [] then Inr (False, ''City not specified'', ''Bangalore'')
           else if city_lower \<notin> set SUPPORTED_CITIES then
             Inr (False,
                  ''City '' @ apostrophe @ city @ apostrophe
                    @ '' not supported. Using Bangalore instead.'',
                  ''Bangalore'')
           else Inr (True, [], city))
      | _ \<Rightarrow> Inl AttributeError)"

definition validate_budget :: "pyval \<Rightarrow> error + bool \<times> string \<times> int" where
  "validate_budget v =
     (case py_int v of
        Inl ValueError \<Rightarrow> Inr (False, ''Invalid budget. Using default '' @ rupee @ ''2000.'', 2000)
      | Inl TypeError \<Rightarrow> Inr (False, ''Invalid budget. Using default '' @ rupee @ ''2000.'', 2000)
      | Inl e \<Rightarrow> Inl e
      | Inr budget \<Rightarrow>
          if budget < MIN_BUDGET then
            Inr (False,
                 ''Budget too low (minimum '' @ rupee @ str_int MIN_BUDGET
                   @ ''). Adjusted to '' @ rupee @ str_int MIN_BUDGET @ ''.'',
                 MIN_BUDGET)
          else if budget > MAX_BUDGET then
            Inr (False,
                 ''Budget too high (maximum '' @ rupee @ str_int MAX_BUDGET
                   @ ''). Adjusted to '' @ rupee @ str_int MAX_BUDGET @ ''.'',
                 MAX_BUDGET)
          else Inr (True, [], budget))"

definition valid_types :: "string list" where
  "valid_types = [''romantic'', ''casual'', ''cozy'', ''budget'', ''budget-friendly'',
                  ''formal'', ''fun'']"

definition validate_date_type :: "pyval \<Rightarrow> error + bool \<times> string \<times> string" where
  "validate_date_type v =
     (case v of
        PStr date_type \<Rightarrow>
          (let date_type_lower = strip (lower date_type) in
           if date_type_lower = [] then
             Inr (False,
                  ''Date type not specified. Using '' @ apostrophe @ ''casual'' @ apostrophe @ ''.'',
                  ''casual'')
           else if date_type_lower \<notin> set valid_types then Inr (True, [], date_type)
           else Inr (True, [], date_type))
      | _ \<Rightarrow> Inl AttributeError)"

section \<open>Regular expressions\<close>

text \<open>
  The fragment of Python's \<open>re\<close> that the validator and \<open>strptime\<close> use, with the
  module's backtracking order. A match state is the named groups captured so far and the
  input still to read; \<open>ms r st\<close> lists the states in which a match of \<open>r\<close> from \<open>st\<close> can
  end, in the order in which the backtracking engine tries them: an alternation tries its
  branches from the left, and \<open>?\<close>, \<open>{lo,hi}\<close> and \<open>+\<close> are greedy. The first state
  of the list is the match the engine reports.
\<close>

datatype rx =
    Lit string
  | Cls "char list"
  | Seq rx rx
  | Alt rx rx
  | Opt rx
  | Rep nat nat rx
  | Plus rx
  | Grp string rx

type_synonym mstate = "(string \<times> string) list \<times> string"

fun rep :: "(mstate \<Rightarrow> mstate list) \<Rightarrow> nat \<Rightarrow> nat \<Rightarrow> mstate \<Rightarrow> mstate list" where
  "rep f lo 0 st = (if lo = 0 then [st] else [])"
| "rep f lo (Suc hi) st =
     concat (map (rep f (lo - 1) hi) (f st)) @ (if lo = 0 then [st] else [])"

text \<open>
  \<open>Plus r\<close> is \<open>r+\<close>. The patterns below repeat only a character class, which reads one
  character per round, so no more rounds are possible than characters remain.
\<close>

primrec ms :: "rx \<Rightarrow> mstate \<Rightarrow> mstate list" where
  "ms (Lit l) st =
     (if take (length l) (snd st) = l then [(fst st, drop (length l) (snd st))] else [])"
| "ms (Cls cs) st =
     (case snd st of
        [] \<Rightarrow> []
      | c # t \<Rightarrow> if c \<in> set cs then [(fst st, t)] else [])"
| "ms (Seq a b) st = concat (map (ms b) (ms a st))"
| "ms (Alt a b) st = ms a st @ ms b st"
| "ms (Opt a) st = ms a st @ [st]"
| "ms (Rep lo hi a) st = rep (ms a) lo hi st"
| "ms (Plus a) st = rep (ms a) 1 (length (snd st)) st"
| "ms (Grp name a) st =
     map (\<lambda>st'. ((name, take (length (snd st) - length (snd st')) (snd st)) # fst st', snd st'))
         (ms a st)"

text \<open>\<open>a|b|c\<close> for literal alternatives.\<close>

fun alts :: "string list \<Rightarrow> rx" where
  "alts [] = Cls []"
| "alts [x] = Lit x"
| "alts (x # y # ys) = Alt (Lit x) (alts (y # ys))"

text \<open>
  \<open>re.search(r, s)\<close>: the match at the leftmost position where there is one; the result
  is \<open>group(0)\<close>, the text matched.
\<close>

fun re_search :: "rx \<Rightarrow> string \<Rightarrow> string option" where
  "re_search r [] = (case ms r ([], []) of [] \<Rightarrow> None | st # _ \<Rightarrow> Some [])"
| "re_search r (c # cs) =
     (case ms r ([], c # cs) of
        [] \<Rightarrow> re_search r cs
      | st # _ \<Rightarrow> Some (take (length (c # cs) - length (snd st)) (c # cs)))"

text \<open>
  \<open>re.sub(r, '', s)\<close> for a pattern that matches no empty string: every match, found
  from left to right, is deleted.
\<close>

function re_sub_empty :: "rx \<Rightarrow> string \<Rightarrow> string" where
  "re_sub_empty r [] = []"
| "re_sub_empty r (c # cs) =
     (case ms r ([], c # cs) of
        [] \<Rightarrow> c # re_sub_empty r cs
      | st # _ \<Rightarrow>
          if length (snd st) < length (c # cs) then re_sub_empty r (snd st)
          else c # re_sub_empty r cs)"
  by pat_completeness auto
termination
  by (relation "measure (\<lambda>(r, s). length s)") auto

text \<open>\<open>re.fullmatch\<close> is not what \<open>strptime\<close> uses: it takes the first match from the
  start of the string and then refuses one that leaves input unread.\<close>

definition re_match :: "rx \<Rightarrow> string \<Rightarrow> mstate option" where
  "re_match r s = (case ms r ([], s) of [] \<Rightarrow> None | st # _ \<Rightarrow> Some st)"

definition digit :: rx where
  "digit = Cls ''0123456789''"

definition space :: rx where
  "space = Cls whitespace"

section \<open>Dates\<close>

text \<open>
  Of a \<open>datetime\<close> the validator reads the year, the month and the day only. A date is
  valid when the year is between 1 and 9999 and the day exists in the month; the
  constructor and \<open>replace\<close> raise \<open>ValueError\<close> otherwise.
\<close>

record date =
  year :: nat
  month :: nat
  day :: nat

definition is_leap :: "nat \<Rightarrow> bool" where
  "is_leap y = (y mod 4 = 0 \<and> (y mod 100 \<noteq> 0 \<or> y mod 400 = 0))"

definition days_in_month :: "nat \<Rightarrow> nat \<Rightarrow> nat" where
  "days_in_month y m =
     (if m = 2 then (if is_leap y then 29 else 28)
      else if m = 4 \<or> m = 6 \<or> m = 9 \<or> m = 11 then 30
      else 31)"

definition valid_date :: "nat \<Rightarrow> nat \<Rightarrow> nat \<Rightarrow> bool" where
  "valid_date y m d =
     (1 \<le> y \<and> y \<le> 9999 \<and> 1 \<le> m \<and> m \<le> 12 \<and> 1 \<le> d \<and> d \<le> days_in_month y m)"

definition mk_date :: "nat \<Rightarrow> nat \<Rightarrow> nat \<Rightarrow> error + date" where
  "mk_date y m d =
     (if valid_date y m d then Inr \<lparr>year = y, month = m, day = d\<rparr> else Inl ValueError)"

definition replace_year :: "date \<Rightarrow> nat \<Rightarrow> error + date" where
  "replace_year dt y = mk_date y (month dt) (day dt)"

text \<open>\<open>a.date() < b.date()\<close>.\<close>

definition date_less :: "date \<Rightarrow> date \<Rightarrow> bool" where
  "date_less a b =
     (year a < year b \<or> (year a = year b \<and>
       (month a < month b \<or> (month a = month b \<and> day a < day b))))"

text \<open>The month names of the C locale, as the \<open>calendar\<close> module gives them.\<close>

definition month_abbr :: "string list" where
  "month_abbr = [''jan'', ''feb'', ''mar'', ''apr'', ''may'', ''jun'',
                 ''jul'', ''aug'', ''sep'', ''oct'', ''nov'', ''dec'']"

definition month_full :: "string list" where
  "month_full = [''january'', ''february'', ''march'', ''april'', ''may'', ''june'',
                 ''july'', ''august'', ''september'', ''october'', ''november'', ''december'']"

definition month_name :: "string list" where
  "month_name = [''January'', ''February'', ''March'', ''April'', ''May'', ''June'',
                 ''July'', ''August'', ''September'', ''October'', ''November'', ''December'']"

text \<open>\<open>xs.index(x)\<close> counted from one, as the month tables are (their entry 0 is empty).\<close>

fun index1 :: "string list \<Rightarrow> string \<Rightarrow> nat option" where
  "index1 [] x = None"
| "index1 (y # ys) x = (if x = y then Some 1 else map_option Suc (index1 ys x))"

section \<open>Parsing and printing dates\<close>

text \<open>
  \<open>datetime.strptime\<close> turns the format into a regular expression: a directive becomes a
  named group, a run of white space becomes \<open>\s+\<close>, every other character stands for
  itself. The groups are those of CPython's \<open>_strptime\<close>; only the directives that the
  validator's formats use are modelled (any other matches nothing). The month names of
  \<open>%B\<close> are tried from the longest to the shortest, in a stable order.
\<close>

definition directive :: "char \<Rightarrow> rx" where
  "directive c =
     (if c = CHR ''d'' then
        Grp ''d'' (Alt (Seq (Lit ''3'') (Cls ''01''))
                  (Alt (Seq (Cls ''12'') digit)
                  (Alt (Seq (Lit ''0'') (Cls ''123456789''))
                  (Alt (Cls ''123456789'')
                       (Seq (Lit '' '') (Cls ''123456789''))))))
      else if c = CHR ''m'' then
        Grp ''m'' (Alt (Seq (Lit ''1'') (Cls ''012''))
                  (Alt (Seq (Lit ''0'') (Cls ''123456789''))
                       (Cls ''123456789'')))
      else if c = CHR ''Y'' then Grp ''Y'' (Seq digit (Seq digit (Seq digit digit)))
      else if c = CHR ''B'' then
        Grp ''B'' (alts [''september'', ''february'', ''november'', ''december'', ''january'',
                         ''october'', ''august'', ''march'', ''april'', ''june'', ''july'',
                         ''may''])
      else if c = CHR ''b'' then Grp ''b'' (alts month_abbr)
      else Cls [])"

fun format_rx :: "string \<Rightarrow> rx" where
  "format_rx [] = Lit []"
| "format_rx [c] = (if c = CHR ''%'' then Cls [] else if is_space c then Plus space else Lit [c])"
| "format_rx (c # d # ds) =
     (if c = CHR ''%'' then Seq (directive d) (format_rx ds)
      else if is_space c then
        (if is_space d then format_rx (d # ds) else Seq (Plus space) (format_rx (d # ds)))
      else Seq (Lit [c]) (format_rx (d # ds)))"

text \<open>
  The fields of the match. \<open>int\<close> reads the day, the numeric month and the year; a month
  name is looked up in its table. Without a year the date is built in 1900, also for the
  29th of February, which 1900 does not have. The constructor raises \<open>ValueError\<close> for a
  day that the month does not have and for the year 0.
\<close>

definition found_int :: "(string \<times> string) list \<Rightarrow> string \<Rightarrow> nat \<Rightarrow> error + nat" where
  "found_int found key dflt =
     (case map_of found key of
        None \<Rightarrow> Inr dflt
      | Some s \<Rightarrow> (case int_of_str s of Inl e \<Rightarrow> Inl e | Inr i \<Rightarrow> Inr (nat i)))"

definition found_month :: "(string \<times> string) list \<Rightarrow> error + nat" where
  "found_month found =
     (case map_of found ''m'' of
        Some s \<Rightarrow> found_int found ''m'' 1
      | None \<Rightarrow>
          (case map_of found ''B'' of
             Some s \<Rightarrow> (case index1 month_full (lower s) of None \<Rightarrow> Inl ValueError | Some m \<Rightarrow> Inr m)
           | None \<Rightarrow>
               (case map_of found ''b'' of
                  Some s \<Rightarrow>
                    (case index1 month_abbr (lower s) of None \<Rightarrow> Inl ValueError | Some m \<Rightarrow> Inr m)
                | None \<Rightarrow> Inr 1)))"

definition strptime :: "string \<Rightarrow> string \<Rightarrow> error + date" where
  "strptime data_string fmt =
     (case re_match (format_rx fmt) data_string of
        None \<Rightarrow> Inl ValueError
      | Some found \<Rightarrow>
          if snd found \<noteq> [] then Inl ValueError
          else
            (case found_int (fst found) ''Y'' 1900 of
               Inl e \<Rightarrow> Inl e
             | Inr y \<Rightarrow>
                 (case found_month (fst found) of
                    Inl e \<Rightarrow> Inl e
                  | Inr m \<Rightarrow>
                      (case found_int (fst found) ''d'' 1 of
                         Inl e \<Rightarrow> Inl e
                       | Inr d \<Rightarrow> mk_date y m d))))"

text \<open>
  \<open>strftime\<close> with the directives \<open>%B\<close> (the full month name), \<open>%d\<close> (the day, two digits)
  and \<open>%Y\<close> (the year, four digits, as the library's documentation has it).
\<close>

definition zero_pad :: "nat \<Rightarrow> string \<Rightarrow> string" where
  "zero_pad w s = replicate (w - length s) CHR ''0'' @ s"

definition directive_text :: "date \<Rightarrow> char \<Rightarrow> string" where
  "directive_text dt c =
     (if c = CHR ''B'' then
        (if 1 \<le> month dt \<and> month dt \<le> 12 then month_name ! (month dt - 1) else [])
      else if c = CHR ''d'' then zero_pad 2 (str_nat (day dt))
      else if c = CHR ''Y'' then zero_pad 4 (str_nat (year dt))
      else [CHR ''%'', c])"

fun strftime :: "date \<Rightarrow> string \<Rightarrow> string" where
  "strftime dt [] = []"
| "strftime dt [c] = [c]"
| "strftime dt (c # d # ds) =
     (if c = CHR ''%'' then directive_text dt d @ strftime dt ds
      else c # strftime dt (d # ds))"

section \<open>The timing validator\<close>

text \<open>
  The four patterns of \<open>date_patterns\<close> with their formats. The groups of the source's
  patterns are never read (only \<open>group(0)\<close> is), so the patterns are written without them.
  The text searched is already lower case, so the flag \<open>re.IGNORECASE\<close> changes nothing.
\<close>

definition ordinal :: rx where
  "ordinal = alts [''st'', ''nd'', ''rd'', ''th'']"

definition date_patterns :: "(rx \<times> string) list" where
  "date_patterns =
     [(Seq (Rep 1 2 digit) (Seq (Opt ordinal) (Seq (Plus space) (alts month_abbr))),
       ''%d %b''),
      (Seq (Rep 1 2 digit) (Seq (Opt ordinal) (Seq (Plus space) (alts month_full))),
       ''%d %B''),
      (Seq (Rep 1 2 digit) (Seq (Lit ''/'') (Seq (Rep 1 2 digit) (Seq (Lit ''/'') (Rep 4 4 digit)))),
       ''%d/%m/%Y''),
      (Seq (Rep 4 4 digit) (Seq (Lit ''-'') (Seq (Rep 1 2 digit) (Seq (Lit ''-'') (Rep 1 2 digit)))),
       ''%Y-%m-%d'')]"

text \<open>
  The body of the \<open>try\<close> block, in two parts. \<open>resolve\<close> strips the ordinal suffixes from the
  matched text, parses it and puts a date of the year 1900 into the current year.
  \<open>decide\<close> compares the resolved date with the current date. Both can raise: \<open>strptime\<close>
  and \<open>replace\<close> raise \<open>ValueError\<close>.
\<close>

definition resolve :: "date \<Rightarrow> string \<Rightarrow> string \<Rightarrow> error + date" where
  "resolve now matched date_format =
     (let date_str = re_sub_empty ordinal matched in
      case strptime date_str date_format of
        Inl e \<Rightarrow> Inl e
      | Inr parsed_date \<Rightarrow>
          if year parsed_date = 1900 then replace_year parsed_date (year now)
          else Inr parsed_date)"

definition decide :: "date \<Rightarrow> string \<Rightarrow> date \<Rightarrow> error + bool \<times> string \<times> string" where
  "decide now timing parsed_date =
     (if date_less parsed_date now then
        (if month parsed_date < month now then
           (case replace_year parsed_date (year now + 1) of
              Inl e \<Rightarrow> Inl e
            | Inr next_date \<Rightarrow>
                Inr (True,
                     warning_sign @ '' Date adjusted to '' @ strftime next_date ''%B %d, %Y''
                       @ '' (next year)'',
                     strftime next_date ''%B %d''))
         else
           Inr (False,
                cross_mark @ '' Date '' @ apostrophe @ timing @ apostrophe
                  @ '' is in the past. Please choose a future date.'',
                ''today''))
      else Inr (True, [], timing))"

definition attempt :: "date \<Rightarrow> string \<Rightarrow> string \<Rightarrow> string \<Rightarrow> error + bool \<times> string \<times> string" where
  "attempt now timing matched date_format =
     (case resolve now matched date_format of
        Inl e \<Rightarrow> Inl e
      | Inr parsed_date \<Rightarrow> decide now timing parsed_date)"

text \<open>
  The loop over the patterns: a pattern that does not match is skipped, and
  \<open>except ValueError: continue\<close> goes on to the next pattern; any other exception leaves
  the loop. After the last pattern the timing is accepted as it is.
\<close>

fun scan_patterns ::
  "date \<Rightarrow> string \<Rightarrow> string \<Rightarrow> (rx \<times> string) list \<Rightarrow> error + bool \<times> string \<times> string" where
  "scan_patterns now timing timing_lower [] = Inr (True, [], timing)"
| "scan_patterns now timing timing_lower (pf # rest) =
     (case re_search (fst pf) timing_lower of
        None \<Rightarrow> scan_patterns now timing timing_lower rest
      | Some matched \<Rightarrow>
          (case attempt now timing matched (snd pf) of
             Inl e \<Rightarrow>
               if e = ValueError then scan_patterns now timing timing_lower rest else Inl e
           | Inr result \<Rightarrow> Inr result))"

definition is_keyword :: "string \<Rightarrow> bool" where
  "is_keyword timing_lower =
     (timing_lower \<in> set [''today'', ''tonight'', ''this evening'']
      \<or> timing_lower \<in> set [''tomorrow'']
      \<or> (str_contains ''weekend'' timing_lower \<or> str_contains ''this week'' timing_lower))"

definition validate_date_time :: "date \<Rightarrow> pyval \<Rightarrow> error + bool \<times> string \<times> string" where
  "validate_date_time now v =
     (case v of
        PStr timing \<Rightarrow>
          (let timing_lower = strip (lower timing) in
           if timing_lower \<in> set [''today'', ''tonight'', ''this evening''] then
             Inr (True, [], timing)
           else if timing_lower \<in> set [''tomorrow''] then Inr (True, [], timing)
           else if str_contains ''weekend'' timing_lower \<or> str_contains ''this week'' timing_lower
           then Inr (True, [], timing)
           else scan_patterns now timing timing_lower date_patterns)
      | _ \<Rightarrow> Inl AttributeError)"

section \<open>The plan validator\<close>

text \<open>
  A plan is a dictionary from keys to values. \<open>dict_get\<close> is \<open>plan.get(key, default)\<close>.
  The current date is read once, when the validator is constructed, and is a parameter
  here. The result is \<open>(is_valid, error_message, corrected_plan)\<close>.
\<close>

type_synonym plan = "string \<Rightarrow> pyval option"

definition dict_get :: "plan \<Rightarrow> string \<Rightarrow> pyval \<Rightarrow> pyval" where
  "dict_get d key dflt = (case d key of None \<Rightarrow> dflt | Some v \<Rightarrow> v)"

definition validate_plan :: "date \<Rightarrow> plan \<Rightarrow> error + bool \<times> string \<times> plan" where
  "validate_plan now plan =
     (case validate_city (dict_get plan ''city'' (PStr [])) of
        Inl e \<Rightarrow> Inl e
      | Inr (city_valid, city_error, corrected_city) \<Rightarrow>
     (case validate_budget (dict_get plan ''budget'' (PInt 0)) of
        Inl e \<Rightarrow> Inl e
      | Inr (budget_valid, budget_error, corrected_budget) \<Rightarrow>
     (case validate_date_time now (dict_get plan ''timing'' (PStr ''today'')) of
        Inl e \<Rightarrow> Inl e
      | Inr (date_valid, date_error, corrected_timing) \<Rightarrow>
     (case validate_date_type (dict_get plan ''date_type'' (PStr [])) of
        Inl e \<Rightarrow> Inl e
      | Inr (date_type_valid, type_error, corrected_type) \<Rightarrow>
          (let errors = (if \<not> city_valid then [city_error] else [])
                      @ (if \<not> budget_valid then [budget_error] else [])
                      @ (if \<not> date_valid then [date_error] else [])
                      @ (if \<not> date_type_valid then [type_error] else []);
               corrected_plan = plan(''city'' \<mapsto> PStr corrected_city,
                                     ''budget'' \<mapsto> PInt corrected_budget,
                                     ''timing'' \<mapsto> PStr corrected_timing,
                                     ''date_type'' \<mapsto> PStr corrected_type)
           in if errors \<noteq> [] then Inr (False, join '' | '' errors, corrected_plan)
              else Inr (True, [], corrected_plan))))))"

section \<open>What the parser extracts\<close>

text \<open>
  The date a pattern extracts from the lower-case text: the pattern matches somewhere and
  the matched text parses; the result is the resolved date (a date without a year is put
  into the current year). \<open>first_resolved\<close> is the date of the first pattern, in the order
  of the list, that extracts one.
\<close>

definition resolved :: "date \<Rightarrow> string \<Rightarrow> rx \<times> string \<Rightarrow> date option" where
  "resolved now timing_lower pf =
     (case re_search (fst pf) timing_lower of
        None \<Rightarrow> None
      | Some matched \<Rightarrow>
          (case resolve now matched (snd pf) of Inl e \<Rightarrow> None | Inr d \<Rightarrow> Some d))"

fun first_resolved :: "date \<Rightarrow> string \<Rightarrow> (rx \<times> string) list \<Rightarrow> date option" where
  "first_resolved now timing_lower [] = None"
| "first_resolved now timing_lower (pf # rest) =
     (case resolved now timing_lower pf of
        Some d \<Rightarrow> Some d
      | None \<Rightarrow> first_resolved now timing_lower rest)"

text \<open>The current date of the specification's examples, 2024-06-15.\<close>

definition example_now :: date where
  "example_now = \<lparr>year = 2024, month = 6, day = 15\<rparr>"

text \<open>
  A plan with valid city, budget and date type whose timing, on that date, lies in an
  earlier month of the year.
\<close>

definition example_plan :: plan where
  "example_plan = [''city'' \<mapsto> PStr ''Mumbai'', ''budget'' \<mapsto> PInt 1500,
                   ''timing'' \<mapsto> PStr ''10th January'', ''date_type'' \<mapsto> PStr ''romantic'']"

section \<open>Properties of the matcher\<close>

text \<open>A match only reads input: what is left after it is a suffix of what was there.\<close>

lemma rep_suffix:
  assumes f: "\<And>st st'. st' \<in> set (f st) \<Longrightarrow> \<exists>pre. snd st = pre @ snd st'"
  shows "st' \<in> set (rep f lo hi st) \<Longrightarrow> \<exists>pre. snd st = pre @ snd st'"
proof (induction hi arbitrary: lo st)
  case 0
  then show ?case by (auto split: if_splits)
next
  case (Suc hi)
  from Suc.prems consider
    (more) st1 where "st1 \<in> set (f st)" "st' \<in> set (rep f (lo - 1) hi st1)"
    | (stop) "st' = st"
    by (auto split: if_splits)
  then show ?case
  proof cases
    case more
    obtain p1 where "snd st = p1 @ snd st1" using f more(1) by blast
    moreover obtain p2 where "snd st1 = p2 @ snd st'" using Suc.IH more(2) by blast
    ultimately have "snd st = (p1 @ p2) @ snd st'" by simp
    then show ?thesis by blast
  next
    case stop
    then show ?thesis by simp
  qed
qed

lemma ms_suffix: "st' \<in> set (ms r st) \<Longrightarrow> \<exists>pre. snd st = pre @ snd st'"
proof (induction r arbitrary: st st')
  case (Lit l)
  then have "st' = (fst st, drop (length l) (snd st))"
    by (auto split: if_splits)
  then have "snd st = take (length l) (snd st) @ snd st'"
    by simp
  then show ?case by blast
next
  case (Cls cs)
  then obtain c where "snd st = [c] @ snd st'"
    by (cases "snd st") (auto split: if_splits)
  then show ?case by blast
next
  case (Seq a b)
  then obtain st1 where "st1 \<in> set (ms a st)" "st' \<in> set (ms b st1)"
    by auto
  then obtain p1 p2 where "snd st = p1 @ snd st1" "snd st1 = p2 @ snd st'"
    using Seq.IH by blast
  then have "snd st = (p1 @ p2) @ snd st'" by simp
  then show ?case by blast
next
  case (Alt a b)
  then have "st' \<in> set (ms a st) \<or> st' \<in> set (ms b st)" by simp
  then show ?case using Alt.IH by blast
next
  case (Opt a)
  then have "st' \<in> set (ms a st) \<or> st' = st" by auto
  then show ?case using Opt.IH by fastforce
next
  case (Rep lo hi a)
  then have "st' \<in> set (rep (ms a) lo hi st)" by simp
  then show ?case using rep_suffix [of "ms a" st' lo hi st] Rep.IH by blast
next
  case (Plus a)
  then have "st' \<in> set (rep (ms a) 1 (length (snd st)) st)" by simp
  then show ?case using rep_suffix [of "ms a" st' 1 "length (snd st)" st] Plus.IH by blast
next
  case (Grp name a)
  then obtain st0 where "st0 \<in> set (ms a st)" "snd st' = snd st0" by auto
  then show ?case using Grp.IH by fastforce
qed

lemma ms_Seq_nonempty:
  "ms (Seq a b) st \<noteq> [] \<Longrightarrow> \<exists>st1 \<in> set (ms a st). ms b st1 \<noteq> []"
  by auto

lemma rep_first_round:
  "st1 \<in> set (rep f (Suc lo) hi st) \<Longrightarrow> \<exists>st0 \<in> set (f st). st1 \<in> set (rep f lo (hi - 1) st0)"
  by (cases hi) auto

lemma ms_Cls_first: "st1 \<in> set (ms (Cls cs) st) \<Longrightarrow> \<exists>c. snd st = c # snd st1 \<and> c \<in> set cs"
  by (cases "snd st") (auto split: if_splits)

lemma ms_Lit_first: "ms (Lit (c # l)) st \<noteq> [] \<Longrightarrow> \<exists>t. snd st = c # t"
  by (cases "snd st") (auto split: if_splits)

lemma digits_first:
  assumes "st1 \<in> set (ms (Rep lo hi digit) st)" and "0 < lo"
  shows "\<exists>c u pre. snd st = c # u \<and> is_digit c \<and> u = pre @ snd st1"
proof -
  from assms obtain st0 where st0: "st0 \<in> set (ms digit st)"
      and st1: "st1 \<in> set (rep (ms digit) (lo - 1) (hi - 1) st0)"
    using rep_first_round [of st1 "ms digit" "lo - 1" hi st] by auto
  from st0 obtain c where c: "snd st = c # snd st0" "is_digit c"
    using ms_Cls_first [of st0 "''0123456789''" st] by (auto simp: digit_def is_digit_def)
  from st1 obtain pre where "snd st0 = pre @ snd st1"
    using rep_suffix [of "ms digit" st1 "lo - 1" "hi - 1" st0] ms_suffix by blast
  with c show ?thesis by blast
qed

lemma spaces_first:
  assumes "ms (Seq (Plus space) m) st \<noteq> []"
  shows "\<exists>w t. snd st = w # t \<and> is_space w"
proof -
  from assms obtain st1 where "st1 \<in> set (ms (Plus space) st)"
    by (cases "ms (Plus space) st") auto
  then obtain st0 where "st0 \<in> set (ms space st)"
    using rep_first_round [of st1 "ms space" 0 "length (snd st)" st] by auto
  then show ?thesis
    using ms_Cls_first [of st0 whitespace st] by (auto simp: space_def is_space_def)
qed

lemma day_month_start:
  assumes "ms (Seq (Rep 1 2 digit) (Seq (Opt x) (Seq (Plus space) m))) st \<noteq> []"
  shows "\<exists>c u. snd st = c # u \<and> is_digit c \<and> (\<exists>w \<in> set u. is_space w)"
proof -
  from assms obtain st1 where st1: "st1 \<in> set (ms (Rep 1 2 digit) st)"
      and r1: "ms (Seq (Opt x) (Seq (Plus space) m)) st1 \<noteq> []"
    using ms_Seq_nonempty by blast
  from r1 obtain st2 where st2: "st2 \<in> set (ms (Opt x) st1)"
      and r2: "ms (Seq (Plus space) m) st2 \<noteq> []"
    using ms_Seq_nonempty by blast
  from st1 obtain c u p1 where c: "snd st = c # u" "is_digit c" "u = p1 @ snd st1"
    using digits_first [of st1 1 2 st] by auto
  from st2 obtain p2 where p2: "snd st1 = p2 @ snd st2"
    using ms_suffix by blast
  from r2 obtain w t where w: "snd st2 = w # t" "is_space w"
    using spaces_first by blast
  from c p2 w have "w \<in> set u" by simp
  with c w show ?thesis by blast
qed

lemma numeric_start:
  assumes "ms (Seq (Rep lo hi digit) (Seq (Lit [s]) m)) st \<noteq> []" and "0 < lo"
  shows "\<exists>c u. snd st = c # u \<and> is_digit c \<and> s \<in> set u"
proof -
  from assms obtain st1 where st1: "st1 \<in> set (ms (Rep lo hi digit) st)"
      and r1: "ms (Seq (Lit [s]) m) st1 \<noteq> []"
    using ms_Seq_nonempty by blast
  from r1 have "ms (Lit [s]) st1 \<noteq> []"
    by (cases "ms (Lit [s]) st1") auto
  then obtain t where t: "snd st1 = s # t"
    using ms_Lit_first by blast
  from st1 obtain c u p1 where c: "snd st = c # u" "is_digit c" "u = p1 @ snd st1"
    using digits_first assms(2) by blast
  from c t have "s \<in> set u" by simp
  with c show ?thesis by blast
qed

lemma pattern_start:
  assumes "pf \<in> set date_patterns" and "ms (fst pf) st \<noteq> []"
  shows "\<exists>c u. snd st = c # u \<and> is_digit c
           \<and> (\<exists>w \<in> set u. is_space w \<or> w = CHR ''/'' \<or> w = CHR ''-'')"
proof -
  from assms(1) consider
      (abbr) "fst pf = Seq (Rep 1 2 digit) (Seq (Opt ordinal) (Seq (Plus space) (alts month_abbr)))"
    | (full) "fst pf = Seq (Rep 1 2 digit) (Seq (Opt ordinal) (Seq (Plus space) (alts month_full)))"
    | (slash) "fst pf = Seq (Rep 1 2 digit) (Seq (Lit ''/'')
                 (Seq (Rep 1 2 digit) (Seq (Lit ''/'') (Rep 4 4 digit))))"
    | (iso) "fst pf = Seq (Rep 4 4 digit) (Seq (Lit ''-'')
                 (Seq (Rep 1 2 digit) (Seq (Lit ''-'') (Rep 1 2 digit))))"
    by (auto simp: date_patterns_def)
  then show ?thesis
  proof cases
    case abbr
    have "\<exists>c u. snd st = c # u \<and> is_digit c \<and> (\<exists>w \<in> set u. is_space w)"
      by (rule day_month_start [OF assms(2) [unfolded abbr]])
    then show ?thesis by blast
  next
    case full
    have "\<exists>c u. snd st = c # u \<and> is_digit c \<and> (\<exists>w \<in> set u. is_space w)"
      by (rule day_month_start [OF assms(2) [unfolded full]])
    then show ?thesis by blast
  next
    case slash
    have "\<exists>c u. snd st = c # u \<and> is_digit c \<and> CHR ''/'' \<in> set u"
      by (rule numeric_start [OF assms(2) [unfolded slash]]) simp
    then show ?thesis by blast
  next
    case iso
    have "\<exists>c u. snd st = c # u \<and> is_digit c \<and> CHR ''-'' \<in> set u"
      by (rule numeric_start [OF assms(2) [unfolded iso]]) simp
    then show ?thesis by blast
  qed
qed

lemma re_search_start:
  "re_search r s = Some g \<Longrightarrow> \<exists>pre t. s = pre @ t \<and> ms r ([], t) \<noteq> []"
proof (induction s)
  case Nil
  then show ?case by (auto split: list.splits)
next
  case (Cons c cs)
  show ?case
  proof (cases "ms r ([], c # cs)")
    case Nil
    with Cons.prems have "re_search r cs = Some g" by simp
    then obtain pre t where "cs = pre @ t" "ms r ([], t) \<noteq> []"
      using Cons.IH by blast
    then have "c # cs = (c # pre) @ t \<and> ms r ([], t) \<noteq> []" by simp
    then show ?thesis by blast
  next
    case (Cons st sts)
    then have "c # cs = [] @ (c # cs) \<and> ms r ([], c # cs) \<noteq> []" by simp
    then show ?thesis by blast
  qed
qed

lemma no_date_in_text:
  assumes l: "\<forall>c \<in> set l. \<not> is_digit c"
    and r: "\<forall>w \<in> set r. \<not> (is_space w \<or> w = CHR ''/'' \<or> w = CHR ''-'')"
    and pf: "pf \<in> set date_patterns"
  shows "re_search (fst pf) (l @ r) = None"
proof (rule ccontr)
  assume "re_search (fst pf) (l @ r) \<noteq> None"
  then obtain g where "re_search (fst pf) (l @ r) = Some g" by auto
  then obtain pre t where t: "l @ r = pre @ t" "ms (fst pf) ([], t) \<noteq> []"
    using re_search_start by blast
  then obtain c u w where c: "t = c # u" "is_digit c" "w \<in> set u"
      "is_space w \<or> w = CHR ''/'' \<or> w = CHR ''-''"
    using pattern_start [OF pf, of "([], t)"] by auto
  from t(1) c(1) have "l @ r = pre @ c # u" by simp
  then consider us where "l = pre @ us" "us @ r = c # u" | us where "r = us @ c # u"
    by (auto simp: append_eq_append_conv2)
  then show False
  proof cases
    case 1
    show ?thesis
    proof (cases us)
      case Nil
      with 1 c r show ?thesis by auto
    next
      case (Cons x xs)
      with 1 c l show ?thesis by auto
    qed
  next
    case 2
    with c r show ?thesis by auto
  qed
qed

section \<open>Strings and the plan validator's assembly\<close>

lemma str_contains_append: "str_contains sub (a @ sub @ b)"
proof (induction a)
  case Nil
  have t: "take (length sub) (sub @ b) = sub" by simp
  show ?case
  proof (cases "sub @ b")
    case Nil
    then show ?thesis by simp
  next
    case (Cons c cs)
    with t show ?thesis by simp
  qed
next
  case (Cons x a)
  then show ?case by simp
qed

lemma lower_strip_examples:
  "strip (lower []) = []"
  "strip (lower ''Atlantis'') = ''atlantis''"
  "strip (lower ''Mumbai'') = ''mumbai''"
  "strip (lower ''Bangalore'') = ''bangalore''"
  "strip (lower ''surprise'') = ''surprise''"
  "strip (lower ''casual'') = ''casual''"
  "strip (lower ''romantic'') = ''romantic''"
  "strip (lower ''today'') = ''today''"
  by code_simp+

lemma budget_numbers:
  "str_int 500 = ''500''" "str_int 50000 = ''50000''"
  by (simp_all add: str_int_def str_nat.simps digit_char_def)

lemma str_contains_prepend: "str_contains sub s \<Longrightarrow> str_contains sub (a @ s)"
  by (induction a) simp_all

lemma join_first: "\<exists>rest. join sep (x # xs) = x @ rest"
  by (cases xs) simp_all

lemma join_last: "\<exists>pre. join sep (xs @ [x]) = pre @ x"
proof (induction xs)
  case Nil
  show ?case by simp
next
  case (Cons y ys)
  then obtain pre where pre: "join sep (ys @ [x]) = pre @ x" by blast
  have "join sep ((y # ys) @ [x]) = y @ sep @ join sep (ys @ [x])"
    by (cases ys) simp_all
  with pre have "join sep ((y # ys) @ [x]) = (y @ sep @ pre) @ x" by simp
  then show ?case by blast
qed

lemma join_contains: "x \<in> set xs \<Longrightarrow> str_contains x (join sep xs)"
proof (induction xs)
  case Nil
  then show ?case by simp
next
  case (Cons y ys)
  show ?case
  proof (cases "x = y")
    case True
    obtain rest where "join sep (y # ys) = y @ rest"
      using join_first by blast
    with True show ?thesis
      using str_contains_append [of x "[]" rest] by simp
  next
    case False
    with Cons have in_ys: "x \<in> set ys" and c: "str_contains x (join sep ys)" by simp_all
    then obtain z zs where ys: "ys = z # zs" by (cases ys) simp_all
    have "join sep (y # ys) = (y @ sep) @ join sep ys"
      by (simp add: ys)
    with c show ?thesis
      using str_contains_prepend [of x "join sep ys" "y @ sep"] by simp
  qed
qed

text \<open>
  \<open>int\<close> of a string on some inputs: blanks and single underscores are accepted, the
  separator 0x1C is not white space here, and a numeral of more than 4300 digits is refused.
\<close>

lemma int_of_str_examples:
  "int_of_str '' 600 '' = Inr 600"
  "int_of_str ''-1_500'' = Inr (- 1500)"
  "int_of_str (CHR 0x1C # ''600'') = Inl ValueError"
  "int_of_str ''5_'' = Inl ValueError"
  by code_simp+

lemma digits_more_zeros: "digits_more 0 (replicate n CHR ''0'') = Some 0"
proof (induction n rule: less_induct)
  case (less n)
  show ?case
  proof (cases n)
    case 0
    then show ?thesis by simp
  next
    case (Suc m)
    show ?thesis
    proof (cases m)
      case 0
      with Suc show ?thesis by (simp add: is_digit_def digit_val_def)
    next
      case (Suc k)
      with \<open>n = Suc m\<close> less [of m] show ?thesis
        by (simp add: is_digit_def digit_val_def)
    qed
  qed
qed

lemma int_of_str_digit_limit:
  assumes "MAX_STR_DIGITS < n"
  shows "int_of_str (replicate n CHR ''0'') = Inl ValueError"
proof -
  from assms obtain m where n: "n = Suc m"
    by (cases n) simp_all
  have z: "\<not> int_space CHR ''0''" "is_digit CHR ''0''"
    by (simp_all add: int_space_def is_digit_def)
  have a: "dropWhile int_space (replicate n CHR ''0'') = replicate n CHR ''0''"
    using z(1) by (simp add: n)
  have t: "rev (dropWhile int_space (rev (dropWhile int_space (replicate n CHR ''0''))))
             = replicate n CHR ''0''"
    by (simp only: a rev_replicate)
  have p: "parse_digits (replicate n CHR ''0'') = Some 0"
    using digits_more_zeros [of m] by (simp add: n parse_digits_def z digit_val_def)
  have l: "length (filter is_digit (replicate n CHR ''0'')) = n"
    using z(2) by simp
  have s: "take 1 (replicate n CHR ''0'') \<noteq> ''-''" "take 1 (replicate n CHR ''0'') \<noteq> ''+''"
    by (simp_all add: n)
  have limit: "int_of_str u = Inl ValueError"
    if "parse_digits u = Some 0" and "take 1 u \<noteq> ''-''" and "take 1 u \<noteq> ''+''"
      and "rev (dropWhile int_space (rev (dropWhile int_space u))) = u"
      and "MAX_STR_DIGITS < length (filter is_digit u)" for u
    using that by (simp add: int_of_str_def Let_def)
  show ?thesis
    by (rule limit [OF p s t]) (simp add: l assms)
qed

lemma validate_plan_raises:
  "validate_city (dict_get plan ''city'' (PStr [])) = Inl e \<Longrightarrow> validate_plan now plan = Inl e"
  "validate_city (dict_get plan ''city'' (PStr [])) = Inr rc \<Longrightarrow>
   validate_budget (dict_get plan ''budget'' (PInt 0)) = Inl e \<Longrightarrow> validate_plan now plan = Inl e"
  "validate_city (dict_get plan ''city'' (PStr [])) = Inr rc \<Longrightarrow>
   validate_budget (dict_get plan ''budget'' (PInt 0)) = Inr rb \<Longrightarrow>
   validate_date_time now (dict_get plan ''timing'' (PStr ''today'')) = Inl e \<Longrightarrow>
   validate_plan now plan = Inl e"
  "validate_city (dict_get plan ''city'' (PStr [])) = Inr rc \<Longrightarrow>
   validate_budget (dict_get plan ''budget'' (PInt 0)) = Inr rb \<Longrightarrow>
   validate_date_time now (dict_get plan ''timing'' (PStr ''today'')) = Inr rt \<Longrightarrow>
   validate_date_type (dict_get plan ''date_type'' (PStr [])) = Inl e \<Longrightarrow>
   validate_plan now plan = Inl e"
  by (simp_all only: validate_plan_def sum.case prod.case split: prod.split, simp_all)

lemma validate_plan_returns:
  assumes c: "validate_city (dict_get plan ''city'' (PStr [])) = Inr (cv, cm, cc)"
    and b: "validate_budget (dict_get plan ''budget'' (PInt 0)) = Inr (bv, bm, bc)"
    and t: "validate_date_time now (dict_get plan ''timing'' (PStr ''today'')) = Inr (tv, tm, tc)"
    and d: "validate_date_type (dict_get plan ''date_type'' (PStr [])) = Inr (dv, dm, dc)"
  shows "validate_plan now plan =
      (let errors = (if \<not> cv then [cm] else []) @ (if \<not> bv then [bm] else [])
                      @ (if \<not> tv then [tm] else []) @ (if \<not> dv then [dm] else []);
           corrected_plan = plan(''city'' \<mapsto> PStr cc, ''budget'' \<mapsto> PInt bc,
                                 ''timing'' \<mapsto> PStr tc, ''date_type'' \<mapsto> PStr dc)
       in if errors \<noteq> [] then Inr (False, join '' | '' errors, corrected_plan)
          else Inr (True, [], corrected_plan))"
  unfolding validate_plan_def c b t d by (simp only: sum.case prod.case)

lemma validate_plan_fields:
  assumes "validate_plan now plan = Inr (v, m, P)"
  shows "\<exists>cv cm cc bv bm bc tv tm tc dv dm dc.
           validate_city (dict_get plan ''city'' (PStr [])) = Inr (cv, cm, cc)
         \<and> validate_budget (dict_get plan ''budget'' (PInt 0)) = Inr (bv, bm, bc)
         \<and> validate_date_time now (dict_get plan ''timing'' (PStr ''today'')) = Inr (tv, tm, tc)
         \<and> validate_date_type (dict_get plan ''date_type'' (PStr [])) = Inr (dv, dm, dc)"
proof -
  obtain rc where c: "validate_city (dict_get plan ''city'' (PStr [])) = Inr rc"
    using assms validate_plan_raises(1) [of plan _ now]
    by (cases "validate_city (dict_get plan ''city'' (PStr []))") simp_all
  obtain rb where b: "validate_budget (dict_get plan ''budget'' (PInt 0)) = Inr rb"
    using assms validate_plan_raises(2) [OF c, of _ now]
    by (cases "validate_budget (dict_get plan ''budget'' (PInt 0))") simp_all
  obtain rt where t: "validate_date_time now (dict_get plan ''timing'' (PStr ''today'')) = Inr rt"
    using assms validate_plan_raises(3) [OF c b, of now]
    by (cases "validate_date_time now (dict_get plan ''timing'' (PStr ''today''))") simp_all
  obtain rd where d: "validate_date_type (dict_get plan ''date_type'' (PStr [])) = Inr rd"
    using assms validate_plan_raises(4) [OF c b t]
    by (cases "validate_date_type (dict_get plan ''date_type'' (PStr []))") simp_all
  show ?thesis
    by (cases rc; cases rb; cases rt; cases rd) (simp add: c b t d)
qed

text \<open>
  The plan validator reads the plan only through \<open>plan.get\<close> on its four keys, and stores
  all four keys in the corrected plan: so a plan without a key and the same plan with the
  key set to the default of that \<open>get\<close> are validated alike.
\<close>

lemma validate_plan_same_fields:
  assumes c: "dict_get plan' ''city'' (PStr []) = dict_get plan ''city'' (PStr [])"
    and b: "dict_get plan' ''budget'' (PInt 0) = dict_get plan ''budget'' (PInt 0)"
    and t: "dict_get plan' ''timing'' (PStr ''today'') = dict_get plan ''timing'' (PStr ''today'')"
    and d: "dict_get plan' ''date_type'' (PStr []) = dict_get plan ''date_type'' (PStr [])"
    and rest: "\<And>k. k \<notin> {''city'', ''budget'', ''timing'', ''date_type''} \<Longrightarrow> plan' k = plan k"
  shows "validate_plan now plan' = validate_plan now plan"
proof -
  have P: "plan'(''city'' \<mapsto> cc, ''budget'' \<mapsto> bc, ''timing'' \<mapsto> tc, ''date_type'' \<mapsto> dc)
         = plan(''city'' \<mapsto> cc, ''budget'' \<mapsto> bc, ''timing'' \<mapsto> tc, ''date_type'' \<mapsto> dc)"
    for cc bc tc dc
  proof (rule ext)
    fix k
    consider "k = ''city''" | "k = ''budget''" | "k = ''timing''" | "k = ''date_type''"
      | "k \<notin> {''city'', ''budget'', ''timing'', ''date_type''}"
      by blast
    then show "(plan'(''city'' \<mapsto> cc, ''budget'' \<mapsto> bc, ''timing'' \<mapsto> tc, ''date_type'' \<mapsto> dc)) k
        = (plan(''city'' \<mapsto> cc, ''budget'' \<mapsto> bc, ''timing'' \<mapsto> tc, ''date_type'' \<mapsto> dc)) k"
    proof cases
      case 5
      with rest [of k] show ?thesis by simp
    qed simp_all
  qed
  show ?thesis
    unfolding validate_plan_def c b t d P ..
qed

lemma validate_plan_seed:
  assumes "plan key = None"
    and "(key, seed) \<in> {(''city'', PStr []), (''budget'', PInt 0),
                         (''timing'', PStr ''today''), (''date_type'', PStr [])}"
  shows "validate_plan now (plan(key \<mapsto> seed)) = validate_plan now plan"
proof (rule validate_plan_same_fields)
  fix k
  assume "k \<notin> {''city'', ''budget'', ''timing'', ''date_type''}"
  with assms(2) show "(plan(key \<mapsto> seed)) k = plan k" by auto
qed (use assms in \<open>auto simp: dict_get_def\<close>)

section \<open>The field validators\<close>

text \<open>
  Claim C6. For every city string: when the trimmed, lower-case value is empty the field is
  invalid, the city becomes \<open>Bangalore\<close> and the message is \<open>City not specified\<close>; when it
  is not empty and not in the list of supported cities the field is invalid, the city
  becomes \<open>Bangalore\<close> and the message names the rejected value; when it is in the list the
  field is valid, there is no message, and the string is returned as it was written.
\<close>

theorem validate_city_cases:
  "(strip (lower city) = [] \<longrightarrow>
      validate_city (PStr city) = Inr (False, ''City not specified'', ''Bangalore''))
   \<and> (strip (lower city) \<noteq> [] \<and> strip (lower city) \<notin> set SUPPORTED_CITIES \<longrightarrow>
      validate_city (PStr city)
        = Inr (False,
               ''City '' @ apostrophe @ city @ apostrophe
                 @ '' not supported. Using Bangalore instead.'',
               ''Bangalore'')
      \<and> str_contains city
            (''City '' @ apostrophe @ city @ apostrophe
               @ '' not supported. Using Bangalore instead.''))
   \<and> (strip (lower city) \<in> set SUPPORTED_CITIES \<longrightarrow>
      validate_city (PStr city) = Inr (True, [], city))"
proof -
  have "[] \<notin> set SUPPORTED_CITIES"
    by (simp add: SUPPORTED_CITIES_def)
  moreover have "str_contains city
            (''City '' @ apostrophe @ city @ apostrophe
               @ '' not supported. Using Bangalore instead.'')"
    using str_contains_append [of city "''City '' @ apostrophe"
        "apostrophe @ '' not supported. Using Bangalore instead.''"]
    by simp
  ultimately show ?thesis
    by (auto simp: validate_city_def Let_def)
qed

theorem validate_city_cases_witness:
  "validate_city (PStr []) = Inr (False, ''City not specified'', ''Bangalore'')
   \<and> validate_city (PStr ''Atlantis'')
        = Inr (False, ''City '' @ apostrophe @ ''Atlantis'' @ apostrophe
                 @ '' not supported. Using Bangalore instead.'', ''Bangalore'')
   \<and> str_contains ''Atlantis'' (''City '' @ apostrophe @ ''Atlantis'' @ apostrophe
                 @ '' not supported. Using Bangalore instead.'')
   \<and> validate_city (PStr ''Mumbai'') = Inr (True, [], ''Mumbai'')"
  using validate_city_cases [of "[]"] validate_city_cases [of "''Atlantis''"]
    validate_city_cases [of "''Mumbai''"]
  by (simp add: lower_strip_examples SUPPORTED_CITIES_def)

text \<open>
  Claim C7. For every date type string: when the trimmed, lower-case value is empty the
  field is invalid, the date type becomes \<open>casual\<close> and the message begins
  \<open>Date type not specified\<close>; every other value, in the vocabulary or not, is accepted as
  it was written, with no message.
\<close>

theorem validate_date_type_cases:
  "(strip (lower date_type) = [] \<longrightarrow>
      validate_date_type (PStr date_type)
        = Inr (False, ''Date type not specified. Using '' @ apostrophe @ ''casual''
                 @ apostrophe @ ''.'', ''casual''))
   \<and> (strip (lower date_type) \<noteq> [] \<longrightarrow>
      validate_date_type (PStr date_type) = Inr (True, [], date_type))"
  by (simp add: validate_date_type_def Let_def)

theorem validate_date_type_cases_witness:
  "validate_date_type (PStr [])
     = Inr (False, ''Date type not specified. Using '' @ apostrophe @ ''casual''
              @ apostrophe @ ''.'', ''casual'')
   \<and> ''surprise'' \<notin> set valid_types
   \<and> validate_date_type (PStr ''surprise'') = Inr (True, [], ''surprise'')"
  using validate_date_type_cases [of "[]"] validate_date_type_cases [of "''surprise''"]
  by (simp add: lower_strip_examples valid_types_def)

text \<open>
  The budget validator, for every input whose conversion to an integer raises
  \<open>ValueError\<close> or \<open>TypeError\<close> or returns: the default 2000, the two clamps, and the
  value itself inside the range.
\<close>

lemma validate_budget_cases:
  "(py_int v = Inl ValueError \<or> py_int v = Inl TypeError \<longrightarrow>
      validate_budget v = Inr (False, ''Invalid budget. Using default '' @ rupee @ ''2000.'', 2000))
   \<and> (\<forall>n. py_int v = Inr n \<and> n < 500 \<longrightarrow>
      validate_budget v
        = Inr (False, ''Budget too low (minimum '' @ rupee @ ''500). Adjusted to '' @ rupee
                 @ ''500.'', 500))
   \<and> (\<forall>n. py_int v = Inr n \<and> 50000 < n \<longrightarrow>
      validate_budget v
        = Inr (False, ''Budget too high (maximum '' @ rupee @ ''50000). Adjusted to '' @ rupee
                 @ ''50000.'', 50000))
   \<and> (\<forall>n. py_int v = Inr n \<and> 500 \<le> n \<and> n \<le> 50000 \<longrightarrow>
      validate_budget v = Inr (True, [], n))"
  by (auto simp: validate_budget_def budget_numbers MIN_BUDGET_def MAX_BUDGET_def)

text \<open>
  Claim C5. An infinite float does not convert to an integer: \<open>int\<close> raises
  \<open>OverflowError\<close>, which the validator's \<open>except (ValueError, TypeError)\<close> does not catch,
  so the validator raises instead of substituting the default 2000.
\<close>

theorem validate_budget_infinity:
  "py_int (PFloat PosInf) = Inl OverflowError
   \<and> validate_budget (PFloat PosInf) = Inl OverflowError"
  by (simp add: validate_budget_def)

section \<open>The timing validator\<close>

text \<open>
  Parsing and \<open>replace\<close> raise nothing but \<open>ValueError\<close>, so the loop over the patterns
  always goes on after a failure.
\<close>

lemma int_of_str_error: "int_of_str s = Inl e \<Longrightarrow> e = ValueError"
  by (auto simp: int_of_str_def Let_def split: option.splits if_splits)

lemma found_int_error: "found_int found key dflt = Inl e \<Longrightarrow> e = ValueError"
  by (auto simp: found_int_def dest: int_of_str_error split: option.splits sum.splits)

lemma found_month_error: "found_month found = Inl e \<Longrightarrow> e = ValueError"
  by (auto simp: found_month_def dest: found_int_error split: option.splits)

lemma mk_date_error: "mk_date y m d = Inl e \<Longrightarrow> e = ValueError"
  by (auto simp: mk_date_def split: if_splits)

lemma strptime_error: "strptime s fmt = Inl e \<Longrightarrow> e = ValueError"
  by (auto simp: strptime_def dest: found_int_error found_month_error mk_date_error
      split: option.splits sum.splits if_splits)

lemma resolve_error: "resolve now matched fmt = Inl e \<Longrightarrow> e = ValueError"
  by (auto simp: resolve_def replace_year_def Let_def dest: strptime_error mk_date_error
      split: sum.splits if_splits)

lemma decide_future:
  "\<not> date_less d now \<Longrightarrow> decide now timing d = Inr (True, [], timing)"
  by (simp add: decide_def)

lemma decide_past_rejected:
  "date_less d now \<Longrightarrow> \<not> month d < month now \<Longrightarrow>
   decide now timing d
     = Inr (False,
            cross_mark @ '' Date '' @ apostrophe @ timing @ apostrophe
              @ '' is in the past. Please choose a future date.'',
            ''today'')"
  by (simp add: decide_def)

lemma decide_rollover:
  "date_less d now \<Longrightarrow> month d < month now \<Longrightarrow>
   replace_year d (year now + 1) = Inr next_date \<Longrightarrow>
   decide now timing d
     = Inr (True,
            warning_sign @ '' Date adjusted to '' @ strftime next_date ''%B %d, %Y''
              @ '' (next year)'',
            strftime next_date ''%B %d'')"
  by (simp add: decide_def)

lemma decide_rollover_fails:
  "date_less d now \<Longrightarrow> month d < month now \<Longrightarrow>
   replace_year d (year now + 1) = Inl e \<Longrightarrow>
   decide now timing d = Inl ValueError"
  by (auto simp: decide_def replace_year_def dest: mk_date_error)

lemma validate_date_time_unfold:
  "validate_date_time now (PStr timing) =
     (if is_keyword (strip (lower timing)) then Inr (True, [], timing)
      else scan_patterns now timing (strip (lower timing)) date_patterns)"
  by (simp add: validate_date_time_def is_keyword_def Let_def)

lemma scan_skip:
  "resolved now low pf = None \<Longrightarrow>
   scan_patterns now timing low (pf # rest) = scan_patterns now timing low rest"
  by (auto simp: resolved_def attempt_def dest: resolve_error split: option.splits sum.splits)

lemma scan_hit:
  "resolved now low pf = Some d \<Longrightarrow>
   scan_patterns now timing low (pf # rest) =
     (case decide now timing d of
        Inl e \<Rightarrow> if e = ValueError then scan_patterns now timing low rest else Inl e
      | Inr result \<Rightarrow> Inr result)"
  by (auto simp: resolved_def attempt_def split: option.splits sum.splits)

lemma scan_nothing_resolved:
  "\<forall>pf \<in> set ps. resolved now low pf = None \<Longrightarrow>
   scan_patterns now timing low ps = Inr (True, [], timing)"
  by (induction ps) (simp_all add: scan_skip del: scan_patterns.simps(2))

lemma scan_first_resolved_rejected:
  "first_resolved now low ps = Some d \<Longrightarrow> date_less d now \<Longrightarrow> \<not> month d < month now \<Longrightarrow>
   scan_patterns now timing low ps
     = Inr (False,
            cross_mark @ '' Date '' @ apostrophe @ timing @ apostrophe
              @ '' is in the past. Please choose a future date.'',
            ''today'')"
proof (induction ps)
  case Nil
  then show ?case by simp
next
  case (Cons pf ps)
  show ?case
  proof (cases "resolved now low pf")
    case None
    with Cons show ?thesis by (simp add: scan_skip del: scan_patterns.simps(2))
  next
    case (Some d')
    with Cons.prems have "d' = d" by simp
    with Some Cons.prems show ?thesis
      by (simp add: scan_hit decide_past_rejected del: scan_patterns.simps(2))
  qed
qed

lemma scan_first_resolved_rollover:
  "first_resolved now low ps = Some d \<Longrightarrow> date_less d now \<Longrightarrow> month d < month now \<Longrightarrow>
   replace_year d (year now + 1) = Inr next_date \<Longrightarrow>
   scan_patterns now timing low ps
     = Inr (True,
            warning_sign @ '' Date adjusted to '' @ strftime next_date ''%B %d, %Y''
              @ '' (next year)'',
            strftime next_date ''%B %d'')"
proof (induction ps)
  case Nil
  then show ?case by simp
next
  case (Cons pf ps)
  show ?case
  proof (cases "resolved now low pf")
    case None
    with Cons show ?thesis by (simp add: scan_skip del: scan_patterns.simps(2))
  next
    case (Some d')
    with Cons.prems have "d' = d" by simp
    with Some Cons.prems show ?thesis
      by (simp add: scan_hit decide_rollover del: scan_patterns.simps(2))
  qed
qed


text \<open>
  Claim C3. For every timing string that is no relative keyword and from which the parser
  extracts a date: when the resolved date is before the current date and its month is not
  earlier than the current month, the field is invalid, the corrected timing is \<open>today\<close>
  and the message says that the original phrase is in the past.
\<close>

theorem past_date_rejected:
  assumes "\<not> is_keyword (strip (lower timing))"
    and "first_resolved now (strip (lower timing)) date_patterns = Some d"
    and "date_less d now"
    and "\<not> month d < month now"
  shows "validate_date_time now (PStr timing)
           = Inr (False,
                  cross_mark @ '' Date '' @ apostrophe @ timing @ apostrophe
                    @ '' is in the past. Please choose a future date.'',
                  ''today'')"
  using assms by (simp add: validate_date_time_unfold scan_first_resolved_rejected)

theorem past_date_rejected_witness:
  "\<not> is_keyword (strip (lower ''10th June''))
   \<and> first_resolved example_now (strip (lower ''10th June'')) date_patterns
       = Some \<lparr>year = 2024, month = 6, day = 10\<rparr>
   \<and> validate_date_time example_now (PStr ''10th June'')
       = Inr (False,
              cross_mark @ '' Date '' @ apostrophe @ ''10th June'' @ apostrophe
                @ '' is in the past. Please choose a future date.'',
              ''today'')"
proof -
  have k: "\<not> is_keyword (strip (lower ''10th June''))"
    by code_simp
  have r: "first_resolved example_now (strip (lower ''10th June'')) date_patterns
             = Some \<lparr>year = 2024, month = 6, day = 10\<rparr>"
    by code_simp
  have l: "date_less \<lparr>year = 2024, month = 6, day = 10\<rparr> example_now"
    by (simp add: date_less_def example_now_def)
  have m: "\<not> month \<lparr>year = 2024, month = 6, day = 10\<rparr> < month example_now"
    by (simp add: example_now_def)
  show ?thesis
    using k r past_date_rejected [OF k r l m] by simp
qed

text \<open>
  Claim C8. For every timing string that is no relative keyword and from which none of
  the four patterns extracts a date (the pattern does not match, or what it matches does
  not parse), the timing is accepted as it was written, valid and with no message.
\<close>

theorem unparsed_timing_accepted:
  assumes "\<not> is_keyword (strip (lower timing))"
    and "\<forall>pf \<in> set date_patterns. resolved now (strip (lower timing)) pf = None"
  shows "validate_date_time now (PStr timing) = Inr (True, [], timing)"
  using assms by (simp add: validate_date_time_unfold scan_nothing_resolved)

theorem unparsed_timing_accepted_witness:
  "validate_date_time example_now (PStr ''next week'') = Inr (True, [], ''next week'')
   \<and> re_search (fst (date_patterns ! 0)) (strip (lower ''31st June'')) = Some ''31st jun''
   \<and> validate_date_time example_now (PStr ''31st June'') = Inr (True, [], ''31st June'')"
proof -
  have k1: "\<not> is_keyword (strip (lower ''next week''))"
    by code_simp
  have r1: "\<forall>pf \<in> set date_patterns. resolved example_now (strip (lower ''next week'')) pf = None"
    by code_simp
  have k2: "\<not> is_keyword (strip (lower ''31st June''))"
    by code_simp
  have r2: "\<forall>pf \<in> set date_patterns. resolved example_now (strip (lower ''31st June'')) pf = None"
    by code_simp
  have m: "re_search (fst (date_patterns ! 0)) (strip (lower ''31st June'')) = Some ''31st jun''"
    by code_simp
  show ?thesis
    using m unparsed_timing_accepted [OF k1 r1] unparsed_timing_accepted [OF k2 r2] by simp
qed

text \<open>
  The rollover to the next year, where \<open>replace\<close> succeeds: the resolved date is before
  the current date, its month is earlier than the current month, and the day exists in
  the next year.
\<close>

lemma past_date_rolled_over:
  assumes "\<not> is_keyword (strip (lower timing))"
    and "first_resolved now (strip (lower timing)) date_patterns = Some d"
    and "date_less d now"
    and "month d < month now"
    and "replace_year d (year now + 1) = Inr next_date"
  shows "validate_date_time now (PStr timing)
           = Inr (True,
                  warning_sign @ '' Date adjusted to '' @ strftime next_date ''%B %d, %Y''
                    @ '' (next year)'',
                  strftime next_date ''%B %d'')"
  using assms by (simp add: validate_date_time_unfold scan_first_resolved_rollover)

text \<open>
  Claim C2. On 2024-06-15 the timing \<open>29/02/2024\<close> resolves to a date before the current
  date whose month is earlier than the current month, but 2025 has no 29th of February:
  \<open>replace\<close> raises \<open>ValueError\<close>, the \<open>except\<close> clause meant for the parser goes on to the
  next pattern, and the past date is accepted as it was written, with no message.
\<close>

theorem leap_day_accepted_unchanged:
  "first_resolved example_now (strip (lower ''29/02/2024'')) date_patterns
     = Some \<lparr>year = 2024, month = 2, day = 29\<rparr>
   \<and> date_less \<lparr>year = 2024, month = 2, day = 29\<rparr> example_now
   \<and> month \<lparr>year = 2024, month = 2, day = 29\<rparr> < month example_now
   \<and> replace_year \<lparr>year = 2024, month = 2, day = 29\<rparr> (year example_now + 1) = Inl ValueError
   \<and> validate_date_time example_now (PStr ''29/02/2024'') = Inr (True, [], ''29/02/2024'')"
  by code_simp

lemma rollover_example:
  "validate_date_time example_now (PStr ''10th January'')
     = Inr (True, warning_sign @ '' Date adjusted to January 10, 2025 (next year)'',
            ''January 10'')"
  by code_simp

section \<open>The plan validator\<close>

lemma field_examples:
  "validate_city (PStr ''Mumbai'') = Inr (True, [], ''Mumbai'')"
  "validate_city (PStr ''Atlantis'')
     = Inr (False, ''City '' @ apostrophe @ ''Atlantis'' @ apostrophe
              @ '' not supported. Using Bangalore instead.'', ''Bangalore'')"
  "validate_city (PStr []) = Inr (False, ''City not specified'', ''Bangalore'')"
  "validate_budget (PInt 1500) = Inr (True, [], 1500)"
  "validate_budget (PInt 100)
     = Inr (False, ''Budget too low (minimum '' @ rupee @ ''500). Adjusted to '' @ rupee
              @ ''500.'', 500)"
  "validate_budget (PInt 0)
     = Inr (False, ''Budget too low (minimum '' @ rupee @ ''500). Adjusted to '' @ rupee
              @ ''500.'', 500)"
  "validate_budget (PFloat PosInf) = Inl OverflowError"
  "validate_date_type (PStr ''romantic'') = Inr (True, [], ''romantic'')"
  "validate_date_type (PStr [])
     = Inr (False, ''Date type not specified. Using '' @ apostrophe @ ''casual''
              @ apostrophe @ ''.'', ''casual'')"
  "validate_date_time now (PStr ''today'') = Inr (True, [], ''today'')"
  by (simp_all add: validate_city_def validate_budget_def validate_date_type_def
      validate_date_time_def lower_strip_examples SUPPORTED_CITIES_def budget_numbers
      MIN_BUDGET_def MAX_BUDGET_def date_patterns_def)


lemma resolved_no_match:
  "re_search (fst pf) low = None \<Longrightarrow> resolved now low pf = None"
  by (simp add: resolved_def)

lemma empty_timing_accepted: "validate_date_time now (PStr []) = Inr (True, [], [])"
proof -
  have k: "\<not> is_keyword (strip (lower []))"
    by code_simp
  have "\<forall>pf \<in> set date_patterns. re_search (fst pf) ([] @ []) = None"
    using no_date_in_text [of "[]" "[]"] by simp
  then have "\<forall>pf \<in> set date_patterns. resolved now (strip (lower [])) pf = None"
    by (simp add: resolved_no_match lower_strip_examples)
  with k show ?thesis
    by (simp add: validate_date_time_unfold scan_nothing_resolved)
qed

text \<open>
  Claim C1: \<open>all_valid\<close> is false exactly when one of the four fields required
  correction, and the diagnostic has one message for each corrected field. On 2024-06-15
  the timing \<open>10th January\<close> of the example plan is corrected: the timing validator rewrites
  it to \<open>January 10\<close> and builds a note about the adjusted year. But it reports the field
  valid, so the plan validator returns \<open>all_valid = True\<close> and an empty diagnostic: the
  corrected field is not counted and the note built for it is dropped.
\<close>

theorem rollover_counted_valid:
  "example_plan ''timing'' = Some (PStr ''10th January'')
   \<and> validate_date_time example_now (PStr ''10th January'')
       = Inr (True, warning_sign @ '' Date adjusted to January 10, 2025 (next year)'',
              ''January 10'')
   \<and> validate_plan example_now example_plan
       = Inr (True, [],
              example_plan(''city'' \<mapsto> PStr ''Mumbai'', ''budget'' \<mapsto> PInt 1500,
                           ''timing'' \<mapsto> PStr ''January 10'',
                           ''date_type'' \<mapsto> PStr ''romantic''))"
proof -
  have c: "validate_city (dict_get example_plan ''city'' (PStr [])) = Inr (True, [], ''Mumbai'')"
    by (simp add: dict_get_def example_plan_def field_examples)
  have b: "validate_budget (dict_get example_plan ''budget'' (PInt 0)) = Inr (True, [], 1500)"
    by (simp add: dict_get_def example_plan_def field_examples)
  have t: "validate_date_time example_now (dict_get example_plan ''timing'' (PStr ''today''))
             = Inr (True, warning_sign @ '' Date adjusted to January 10, 2025 (next year)'',
                    ''January 10'')"
    by (simp add: dict_get_def example_plan_def rollover_example)
  have d: "validate_date_type (dict_get example_plan ''date_type'' (PStr []))
             = Inr (True, [], ''romantic'')"
    by (simp add: dict_get_def example_plan_def field_examples)
  show ?thesis
    using validate_plan_returns [OF c b t d]
    by (simp add: rollover_example) (simp add: example_plan_def)
qed

text \<open>
  How the plan validator assembles its result. Whenever the four field validators return,
  \<open>all_valid\<close> is the conjunction of their four validity flags, the diagnostic is the
  messages of the fields reported invalid, in the order city, budget, timing, date type,
  joined with \<open>" | "\<close>, and the corrected plan is the input with the four corrected values
  stored.
\<close>

lemma validate_plan_assembly:
  assumes "validate_city (dict_get plan ''city'' (PStr [])) = Inr (cv, cm, cc)"
    and "validate_budget (dict_get plan ''budget'' (PInt 0)) = Inr (bv, bm, bc)"
    and "validate_date_time now (dict_get plan ''timing'' (PStr ''today'')) = Inr (tv, tm, tc)"
    and "validate_date_type (dict_get plan ''date_type'' (PStr [])) = Inr (dv, dm, dc)"
  shows "validate_plan now plan
           = Inr (cv \<and> bv \<and> tv \<and> dv,
                  join '' | ''
                    (map snd (filter (\<lambda>r. \<not> fst r) [(cv, cm), (bv, bm), (tv, tm), (dv, dm)])),
                  plan(''city'' \<mapsto> PStr cc, ''budget'' \<mapsto> PInt bc,
                       ''timing'' \<mapsto> PStr tc, ''date_type'' \<mapsto> PStr dc))"
  using validate_plan_returns [OF assms]
  by (cases cv; cases bv; cases tv; cases dv) (simp_all only: Let_def, simp_all)

lemma validate_plan_assembly_example:
  "validate_plan example_now
     (example_plan(''city'' \<mapsto> PStr ''Atlantis'', ''budget'' \<mapsto> PInt 100,
                   ''timing'' \<mapsto> PStr ''today'', ''date_type'' \<mapsto> PStr []))
   = Inr (False,
          join '' | ''
            [''City '' @ apostrophe @ ''Atlantis'' @ apostrophe
               @ '' not supported. Using Bangalore instead.'',
             ''Budget too low (minimum '' @ rupee @ ''500). Adjusted to '' @ rupee @ ''500.'',
             ''Date type not specified. Using '' @ apostrophe @ ''casual'' @ apostrophe @ ''.''],
          example_plan(''city'' \<mapsto> PStr ''Atlantis'', ''budget'' \<mapsto> PInt 100,
                   ''timing'' \<mapsto> PStr ''today'', ''date_type'' \<mapsto> PStr [],
                   ''city'' \<mapsto> PStr ''Bangalore'', ''budget'' \<mapsto> PInt 500,
                   ''timing'' \<mapsto> PStr ''today'', ''date_type'' \<mapsto> PStr ''casual''))"
  using validate_plan_assembly [of
      "example_plan(''city'' \<mapsto> PStr ''Atlantis'', ''budget'' \<mapsto> PInt 100,
                   ''timing'' \<mapsto> PStr ''today'', ''date_type'' \<mapsto> PStr [])"
      False _ "''Bangalore''" False _ 500 example_now True "[]" "''today''" False _ "''casual''"]
  by (simp add: dict_get_def field_examples)

text \<open>
  The timing validator has three outcomes: the timing accepted as it is, a past date
  replaced by \<open>today\<close> and reported invalid, and a date rolled over to the next year and
  reported valid. So when the plan validator reports \<open>all_valid = True\<close>, the diagnostic is
  empty, city and date type are the values validated, the budget is their \<open>int\<close>, and the
  timing is either the value validated or the text of a rolled-over date: the rollover is
  the one correction that is not counted.
\<close>

lemma decide_outcome:
  assumes "decide now timing d = Inr (tv, tm, tc)"
  shows "(tv \<and> tm = [] \<and> tc = timing) \<or> (\<not> tv \<and> tc = ''today'')
         \<or> (tv \<and> (\<exists>nd. replace_year d (year now + 1) = Inr nd \<and> tc = strftime nd ''%B %d''))"
proof (cases "date_less d now")
  case False
  with assms show ?thesis by (simp add: decide_def)
next
  case past: True
  show ?thesis
  proof (cases "month d < month now")
    case False
    with past assms show ?thesis by (simp add: decide_def)
  next
    case True
    with past assms show ?thesis
      by (cases "replace_year d (year now + 1)") (simp_all add: decide_def)
  qed
qed

lemma scan_outcome:
  "scan_patterns now timing low ps = Inr (tv, tm, tc) \<Longrightarrow>
   (tv \<and> tm = [] \<and> tc = timing) \<or> (\<not> tv \<and> tc = ''today'')
   \<or> (tv \<and> (\<exists>d nd. replace_year d (year now + 1) = Inr nd \<and> tc = strftime nd ''%B %d''))"
proof (induction ps)
  case Nil
  then show ?case by simp
next
  case (Cons pf ps)
  show ?case
  proof (cases "resolved now low pf")
    case None
    with Cons show ?thesis by (simp add: scan_skip del: scan_patterns.simps(2))
  next
    case (Some d)
    show ?thesis
    proof (cases "decide now timing d")
      case (Inl e)
      with Some Cons.prems have "scan_patterns now timing low ps = Inr (tv, tm, tc)"
        by (simp add: scan_hit del: scan_patterns.simps(2) split: if_splits)
      then show ?thesis by (rule Cons.IH)
    next
      case (Inr r)
      with Some Cons.prems have "decide now timing d = Inr (tv, tm, tc)"
        by (simp add: scan_hit del: scan_patterns.simps(2))
      from decide_outcome [OF this] show ?thesis by blast
    qed
  qed
qed

lemma validate_date_time_outcome:
  assumes "validate_date_time now v = Inr (tv, tm, tc)"
  shows "(tv \<and> tm = [] \<and> v = PStr tc) \<or> (\<not> tv \<and> tc = ''today'')
         \<or> (tv \<and> (\<exists>d nd. replace_year d (year now + 1) = Inr nd \<and> tc = strftime nd ''%B %d''))"
proof -
  from assms obtain timing where v: "v = PStr timing"
    by (cases v) (simp_all add: validate_date_time_def)
  show ?thesis
  proof (cases "is_keyword (strip (lower timing))")
    case True
    with assms v show ?thesis by (simp add: validate_date_time_unfold)
  next
    case False
    with assms v have "scan_patterns now timing (strip (lower timing)) date_patterns
                       = Inr (tv, tm, tc)"
      by (simp add: validate_date_time_unfold)
    from scan_outcome [OF this] v show ?thesis by blast
  qed
qed

lemma valid_plan_changes:
  assumes "validate_plan now plan = Inr (True, msg, P)"
  shows "msg = []
       \<and> P ''city'' = Some (dict_get plan ''city'' (PStr []))
       \<and> (\<exists>n. py_int (dict_get plan ''budget'' (PInt 0)) = Inr n \<and> P ''budget'' = Some (PInt n))
       \<and> (P ''timing'' = Some (dict_get plan ''timing'' (PStr ''today''))
          \<or> (\<exists>d nd. replace_year d (year now + 1) = Inr nd
                    \<and> P ''timing'' = Some (PStr (strftime nd ''%B %d''))))
       \<and> P ''date_type'' = Some (dict_get plan ''date_type'' (PStr []))"
proof -
  from validate_plan_fields [OF assms] obtain cv cm cc bv bm bc tv tm tc dv dm dc where
      c: "validate_city (dict_get plan ''city'' (PStr [])) = Inr (cv, cm, cc)"
    and b: "validate_budget (dict_get plan ''budget'' (PInt 0)) = Inr (bv, bm, bc)"
    and t: "validate_date_time now (dict_get plan ''timing'' (PStr ''today'')) = Inr (tv, tm, tc)"
    and d: "validate_date_type (dict_get plan ''date_type'' (PStr [])) = Inr (dv, dm, dc)"
    by blast
  from assms validate_plan_assembly [OF c b t d]
  have v: "cv" "bv" "tv" "dv"
    and msg: "msg = []"
    and P: "P = plan(''city'' \<mapsto> PStr cc, ''budget'' \<mapsto> PInt bc,
                     ''timing'' \<mapsto> PStr tc, ''date_type'' \<mapsto> PStr dc)"
    by auto
  from c v(1) have city: "dict_get plan ''city'' (PStr []) = PStr cc"
    by (cases "dict_get plan ''city'' (PStr [])")
       (auto simp: validate_city_def Let_def split: if_splits)
  from b v(2) have budget: "py_int (dict_get plan ''budget'' (PInt 0)) = Inr bc"
    by (auto simp: validate_budget_def split: sum.splits error.splits if_splits)
  from validate_date_time_outcome [OF t] v(3)
  have timing: "dict_get plan ''timing'' (PStr ''today'') = PStr tc
                \<or> (\<exists>d nd. replace_year d (year now + 1) = Inr nd \<and> tc = strftime nd ''%B %d'')"
    by blast
  from d v(4) have date_type: "dict_get plan ''date_type'' (PStr []) = PStr dc"
    by (cases "dict_get plan ''date_type'' (PStr [])")
       (auto simp: validate_date_type_def Let_def split: if_splits)
  from city budget timing date_type msg show ?thesis
    unfolding P by auto
qed

text \<open>
  Claim C4. A plan whose timing is the empty string comes back with the timing still
  empty and counted valid; and a plan whose budget is an infinite float makes the plan
  validator raise \<open>OverflowError\<close>.
\<close>

theorem empty_timing_stays_empty:
  "validate_plan example_now (example_plan(''timing'' \<mapsto> PStr []))
     = Inr (True, [],
            example_plan(''timing'' \<mapsto> PStr [], ''city'' \<mapsto> PStr ''Mumbai'',
                         ''budget'' \<mapsto> PInt 1500, ''timing'' \<mapsto> PStr [],
                         ''date_type'' \<mapsto> PStr ''romantic''))
   \<and> validate_plan example_now (example_plan(''budget'' \<mapsto> PFloat PosInf)) = Inl OverflowError"
proof -
  have c: "validate_city (dict_get (example_plan(''timing'' \<mapsto> PStr [])) ''city'' (PStr []))
             = Inr (True, [], ''Mumbai'')"
    by (simp add: dict_get_def example_plan_def field_examples)
  have b: "validate_budget (dict_get (example_plan(''timing'' \<mapsto> PStr [])) ''budget'' (PInt 0))
             = Inr (True, [], 1500)"
    by (simp add: dict_get_def example_plan_def field_examples)
  have t: "validate_date_time example_now
             (dict_get (example_plan(''timing'' \<mapsto> PStr [])) ''timing'' (PStr ''today''))
             = Inr (True, [], [])"
    by (simp add: dict_get_def empty_timing_accepted)
  have d: "validate_date_type (dict_get (example_plan(''timing'' \<mapsto> PStr [])) ''date_type'' (PStr []))
             = Inr (True, [], ''romantic'')"
    by (simp add: dict_get_def example_plan_def field_examples)
  have c': "validate_city (dict_get (example_plan(''budget'' \<mapsto> PFloat PosInf)) ''city'' (PStr []))
             = Inr (True, [], ''Mumbai'')"
    by (simp add: dict_get_def example_plan_def field_examples)
  have b': "validate_budget (dict_get (example_plan(''budget'' \<mapsto> PFloat PosInf)) ''budget'' (PInt 0))
             = Inl OverflowError"
    by (simp add: dict_get_def field_examples)
  show ?thesis
    using validate_plan_returns [OF c b t d] validate_plan_raises(2) [OF c' b']
    by simp
qed

section \<open>Validating a corrected plan again\<close>

text \<open>
  What a field validator returns is accepted by the same validator. For the timing this
  needs the shape of the result: the timing itself, \<open>today\<close>, or the text
  \<open>strftime('%B %d')\<close> of a valid date.
\<close>

lemma city_revalidates:
  assumes "validate_city v = Inr (cv, cm, cc)"
  shows "validate_city (PStr cc) = Inr (True, [], cc)"
proof -
  from assms obtain city where v: "v = PStr city"
    by (cases v) (simp_all add: validate_city_def)
  show ?thesis
  proof (cases "strip (lower city) = [] \<or> strip (lower city) \<notin> set SUPPORTED_CITIES")
    case True
    with assms v have "cc = ''Bangalore''"
      by (auto simp: validate_city_def Let_def split: if_splits)
    then show ?thesis
      by (simp add: validate_city_def lower_strip_examples SUPPORTED_CITIES_def)
  next
    case False
    with assms v have "cc = city"
      by (auto simp: validate_city_def Let_def split: if_splits)
    with False show ?thesis
      by (simp add: validate_city_def)
  qed
qed

lemma budget_in_range:
  assumes "validate_budget v = Inr (bv, bm, bc)"
  shows "500 \<le> bc \<and> bc \<le> 50000"
  using assms
  by (auto simp: validate_budget_def MIN_BUDGET_def MAX_BUDGET_def
      split: sum.splits error.splits if_splits)

lemma budget_revalidates:
  assumes "validate_budget v = Inr (bv, bm, bc)"
  shows "validate_budget (PInt bc) = Inr (True, [], bc)"
  using budget_in_range [OF assms]
  by (simp add: validate_budget_def MIN_BUDGET_def MAX_BUDGET_def)

lemma date_type_revalidates:
  assumes "validate_date_type v = Inr (dv, dm, dc)"
  shows "validate_date_type (PStr dc) = Inr (True, [], dc)"
proof -
  from assms obtain date_type where v: "v = PStr date_type"
    by (cases v) (simp_all add: validate_date_type_def)
  show ?thesis
  proof (cases "strip (lower date_type) = []")
    case True
    with assms v have "dc = ''casual''"
      by (auto simp: validate_date_type_def Let_def split: if_splits)
    then show ?thesis
      by (simp add: validate_date_type_def lower_strip_examples)
  next
    case False
    with assms v have "dc = date_type"
      by (auto simp: validate_date_type_def Let_def split: if_splits)
    with False show ?thesis
      by (simp add: validate_date_type_def)
  qed
qed

lemma decide_result:
  assumes "decide now timing d = Inr (tv, tm, tc)"
  shows "(tv \<and> tm = [] \<and> tc = timing) \<or> tc = ''today''
         \<or> (\<exists>nd. valid_date (year nd) (month nd) (day nd) \<and> tc = strftime nd ''%B %d'')"
proof (cases "date_less d now")
  case False
  with assms show ?thesis by (simp add: decide_def)
next
  case past: True
  show ?thesis
  proof (cases "month d < month now")
    case False
    with past assms show ?thesis by (simp add: decide_def)
  next
    case True
    with past assms obtain nd where nd: "replace_year d (year now + 1) = Inr nd"
        and tc: "tc = strftime nd ''%B %d''"
      by (cases "replace_year d (year now + 1)") (simp_all add: decide_def)
    from nd have "valid_date (year nd) (month nd) (day nd)"
      by (auto simp: replace_year_def mk_date_def split: if_splits)
    with tc show ?thesis by blast
  qed
qed

lemma scan_result:
  "scan_patterns now timing low ps = Inr (tv, tm, tc) \<Longrightarrow>
   (tv \<and> tm = [] \<and> tc = timing) \<or> tc = ''today''
   \<or> (\<exists>nd. valid_date (year nd) (month nd) (day nd) \<and> tc = strftime nd ''%B %d'')"
proof (induction ps)
  case Nil
  then show ?case by simp
next
  case (Cons pf ps)
  show ?case
  proof (cases "resolved now low pf")
    case None
    with Cons show ?thesis by (simp add: scan_skip del: scan_patterns.simps(2))
  next
    case (Some d)
    show ?thesis
    proof (cases "decide now timing d")
      case (Inl e)
      with Some Cons.prems have "scan_patterns now timing low ps = Inr (tv, tm, tc)"
        by (simp add: scan_hit del: scan_patterns.simps(2) split: if_splits)
      then show ?thesis by (rule Cons.IH)
    next
      case (Inr r)
      with Some Cons.prems have "decide now timing d = Inr (tv, tm, tc)"
        by (simp add: scan_hit del: scan_patterns.simps(2))
      then show ?thesis by (rule decide_result)
    qed
  qed
qed

lemma validate_date_time_result:
  assumes "validate_date_time now v = Inr (tv, tm, tc)"
  shows "(tv \<and> tm = [] \<and> v = PStr tc) \<or> tc = ''today''
         \<or> (\<exists>nd. valid_date (year nd) (month nd) (day nd) \<and> tc = strftime nd ''%B %d'')"
proof -
  from assms obtain timing where v: "v = PStr timing"
    by (cases v) (simp_all add: validate_date_time_def)
  show ?thesis
  proof (cases "is_keyword (strip (lower timing))")
    case True
    with assms v show ?thesis by (simp add: validate_date_time_unfold)
  next
    case False
    with assms v have "scan_patterns now timing (strip (lower timing)) date_patterns
                       = Inr (tv, tm, tc)"
      by (simp add: validate_date_time_unfold)
    from scan_result [OF this] v show ?thesis by blast
  qed
qed

text \<open>
  The text of a rolled-over date is a month name, a blank and two digits: it holds no
  keyword, and no pattern finds a day followed by a month in it.
\<close>

lemma is_digit_digit_char: "is_digit (digit_char n)"
proof -
  have "n mod 10 < length ''0123456789''" by simp
  then have "''0123456789'' ! (n mod 10) \<in> set ''0123456789''"
    by (rule nth_mem)
  then show ?thesis by (simp only: is_digit_def digit_char_def)
qed

lemma two_digits:
  assumes "d < 100"
  shows "\<exists>a b. zero_pad 2 (str_nat d) = [a, b] \<and> is_digit a \<and> is_digit b"
proof (cases "d < 10")
  case True
  then have "zero_pad 2 (str_nat d) = [CHR ''0'', digit_char d]"
    by (simp add: str_nat.simps zero_pad_def)
  moreover have "is_digit CHR ''0''" by (simp add: is_digit_def)
  ultimately show ?thesis using is_digit_digit_char by blast
next
  case False
  with assms have "d div 10 < 10" by simp
  with False have "zero_pad 2 (str_nat d) = [digit_char (d div 10), digit_char (d mod 10)]"
    by (simp add: str_nat.simps [of d] str_nat.simps [of "d div 10"] zero_pad_def)
  then show ?thesis using is_digit_digit_char by blast
qed

lemma strftime_month_day:
  assumes "1 \<le> month nd" and "month nd \<le> 12"
  shows "strftime nd ''%B %d''
           = month_name ! (month nd - 1) @ '' '' @ zero_pad 2 (str_nat (day nd))"
  using assms by (simp add: directive_text_def)

lemma month_name_letters:
  "\<forall>n \<in> set month_name. n \<noteq> [] \<and> (\<forall>c \<in> set n. lower_char c \<in> set ''abcdefghijklmnopqrstuvxyz'')"
  by code_simp

lemma digits_checked:
  "\<forall>c \<in> set ''0123456789''.
     \<not> is_space c \<and> c \<noteq> CHR ''/'' \<and> c \<noteq> CHR ''-'' \<and> c \<noteq> CHR ''w'' \<and> lower_char c = c
     \<and> c \<notin> set ''ytgw''"
  by code_simp

lemma digit_kind:
  assumes "is_digit c"
  shows "\<not> is_space c" "c \<noteq> CHR ''/''" "c \<noteq> CHR ''-''" "c \<noteq> CHR ''w''" "lower_char c = c"
    "c \<notin> set ''ytgw''"
  using assms digits_checked unfolding is_digit_def by blast+

lemma letters_checked:
  "\<forall>c \<in> set ''abcdefghijklmnopqrstuvxyz''. \<not> is_digit c \<and> \<not> is_space c \<and> c \<noteq> CHR ''w''"
  by code_simp

lemma letter_kind:
  assumes "c \<in> set ''abcdefghijklmnopqrstuvxyz''"
  shows "\<not> is_digit c" "\<not> is_space c" "c \<noteq> CHR ''w''"
  using assms letters_checked by blast+

lemma strip_unchanged:
  assumes "s \<noteq> []" and "\<not> is_space (hd s)" and "\<not> is_space (last s)"
  shows "strip s = s"
proof -
  have "dropWhile is_space s = s"
    using assms(2) by (simp add: dropWhile_eq_self_iff)
  moreover have "dropWhile is_space (rev s) = rev s"
    using assms(3) by (simp add: dropWhile_eq_self_iff hd_rev)
  ultimately show ?thesis by (simp add: strip_def)
qed

lemma str_contains_set: "str_contains sub s \<Longrightarrow> set sub \<subseteq> set s"
proof (induction s)
  case Nil
  then show ?case by simp
next
  case (Cons c cs)
  from Cons.prems consider "take (length sub) (c # cs) = sub" | "str_contains sub cs"
    by auto
  then show ?case
  proof cases
    case 1
    then have "set sub = set (take (length sub) (c # cs))" by simp
    then show ?thesis using set_take_subset by fast
  next
    case 2
    with Cons.IH show ?thesis by auto
  qed
qed

lemma rollover_text_accepted:
  assumes "valid_date (year nd) (month nd) (day nd)"
  shows "validate_date_time now (PStr (strftime nd ''%B %d''))
           = Inr (True, [], strftime nd ''%B %d'')"
proof -
  from assms have m: "1 \<le> month nd" "month nd \<le> 12" and d: "day nd < 100"
    by (auto simp: valid_date_def days_in_month_def split: if_splits)
  define n where "n = month_name ! (month nd - 1)"
  from m have "n \<in> set month_name"
    unfolding n_def by (intro nth_mem) (simp add: month_name_def)
  with month_name_letters have n: "n \<noteq> []"
      and letters: "\<forall>c \<in> set n. lower_char c \<in> set ''abcdefghijklmnopqrstuvxyz''"
    by blast+
  from two_digits [OF d] obtain a b where ab: "zero_pad 2 (str_nat (day nd)) = [a, b]"
      and a: "is_digit a" and b: "is_digit b"
    by blast
  have shape: "strftime nd ''%B %d'' = n @ '' '' @ [a, b]"
    using strftime_month_day [OF m] ab by (simp add: n_def)
  define l where "l = lower n @ '' ''"
  have low: "lower (n @ '' '' @ [a, b]) = l @ [a, b]"
    using digit_kind(5) [OF a] digit_kind(5) [OF b]
    by (simp add: lower_def l_def lower_char_def)
  have l_letters: "\<forall>c \<in> set l. \<not> is_digit c \<and> c \<noteq> CHR ''w''"
    using letters letter_kind
    by (auto simp: l_def lower_def is_digit_def)
  from n letters have "\<not> is_space (hd (l @ [a, b]))"
    using letter_kind(2) by (cases n) (simp_all add: l_def lower_def)
  moreover have "\<not> is_space (last (l @ [a, b]))"
    using digit_kind(1) [OF b] by simp
  ultimately have stripped: "strip (l @ [a, b]) = l @ [a, b]"
    by (intro strip_unchanged) simp_all
  have no_w: "CHR ''w'' \<notin> set (l @ [a, b])"
    using l_letters digit_kind(4) [OF a] digit_kind(4) [OF b] by auto
  have "\<not> str_contains ''weekend'' (l @ [a, b])" "\<not> str_contains ''this week'' (l @ [a, b])"
    using no_w str_contains_set by fastforce+
  moreover have "last (l @ [a, b]) \<notin> set ''ytgw''"
    using digit_kind(6) [OF b] by simp
  then have "l @ [a, b] \<notin> set [''today'', ''tonight'', ''this evening'']"
      "l @ [a, b] \<notin> set [''tomorrow'']"
    by auto
  ultimately have k: "\<not> is_keyword (l @ [a, b])"
    by (simp add: is_keyword_def)
  have "\<forall>pf \<in> set date_patterns. re_search (fst pf) (l @ [a, b]) = None"
    using no_date_in_text [of l "[a, b]"] l_letters
      digit_kind(1-3) [OF a] digit_kind(1-3) [OF b]
    by simp
  then have r: "\<forall>pf \<in> set date_patterns. resolved now (l @ [a, b]) pf = None"
    by (simp add: resolved_no_match)
  have s: "strip (lower (n @ '' '' @ [a, b])) = l @ [a, b]"
    using low stripped by simp
  show ?thesis
    unfolding shape validate_date_time_unfold s
    using k scan_nothing_resolved [OF r] by simp
qed


lemma timing_revalidates:
  assumes "validate_date_time now v = Inr (tv, tm, tc)"
  shows "validate_date_time now (PStr tc) = Inr (True, [], tc)"
proof -
  from validate_date_time_result [OF assms] consider
      (same) "tv" "tm = []" "v = PStr tc"
    | (today) "tc = ''today''"
    | (rolled) nd where "valid_date (year nd) (month nd) (day nd)" "tc = strftime nd ''%B %d''"
    by blast
  then show ?thesis
  proof cases
    case same
    with assms show ?thesis by simp
  next
    case today
    then show ?thesis by (simp add: field_examples)
  next
    case rolled
    show ?thesis
      unfolding rolled(2) by (rule rollover_text_accepted [OF rolled(1)])
  qed
qed

text \<open>
  Claim C9. Idempotence: whenever the plan validator returns a corrected plan \<open>P\<close>,
  validating \<open>P\<close> with the same current date returns \<open>all_valid = True\<close>, an empty
  diagnostic and \<open>P\<close> itself.
\<close>

theorem validate_plan_idempotent:
  assumes "validate_plan now plan = Inr (v, msg, P)"
  shows "validate_plan now P = Inr (True, [], P)"
proof -
  from validate_plan_fields [OF assms] obtain cv cm cc bv bm bc tv tm tc dv dm dc where
      c: "validate_city (dict_get plan ''city'' (PStr [])) = Inr (cv, cm, cc)"
    and b: "validate_budget (dict_get plan ''budget'' (PInt 0)) = Inr (bv, bm, bc)"
    and t: "validate_date_time now (dict_get plan ''timing'' (PStr ''today'')) = Inr (tv, tm, tc)"
    and d: "validate_date_type (dict_get plan ''date_type'' (PStr [])) = Inr (dv, dm, dc)"
    by blast
  from assms validate_plan_returns [OF c b t d]
  have P: "P = plan(''city'' \<mapsto> PStr cc, ''budget'' \<mapsto> PInt bc,
                    ''timing'' \<mapsto> PStr tc, ''date_type'' \<mapsto> PStr dc)"
    by (simp add: Let_def split: if_splits)
  have keys: "P ''city'' = Some (PStr cc)" "P ''budget'' = Some (PInt bc)"
      "P ''timing'' = Some (PStr tc)" "P ''date_type'' = Some (PStr dc)"
    by (simp_all add: P)
  have c': "validate_city (dict_get P ''city'' (PStr [])) = Inr (True, [], cc)"
    using city_revalidates [OF c] by (simp add: dict_get_def keys)
  have b': "validate_budget (dict_get P ''budget'' (PInt 0)) = Inr (True, [], bc)"
    using budget_revalidates [OF b] by (simp add: dict_get_def keys)
  have t': "validate_date_time now (dict_get P ''timing'' (PStr ''today'')) = Inr (True, [], tc)"
    using timing_revalidates [OF t] by (simp add: dict_get_def keys)
  have d': "validate_date_type (dict_get P ''date_type'' (PStr [])) = Inr (True, [], dc)"
    using date_type_revalidates [OF d] by (simp add: dict_get_def keys)
  have "P(''city'' \<mapsto> PStr cc, ''budget'' \<mapsto> PInt bc,
          ''timing'' \<mapsto> PStr tc, ''date_type'' \<mapsto> PStr dc) = P"
    using keys by (simp add: map_upd_triv)
  with validate_plan_returns [OF c' b' t' d'] show ?thesis
    by simp
qed

theorem validate_plan_idempotent_witness:
  "validate_plan example_now example_plan
     = Inr (True, [],
            example_plan(''city'' \<mapsto> PStr ''Mumbai'', ''budget'' \<mapsto> PInt 1500,
                         ''timing'' \<mapsto> PStr ''January 10'',
                         ''date_type'' \<mapsto> PStr ''romantic''))
   \<and> validate_plan example_now
         (example_plan(''city'' \<mapsto> PStr ''Mumbai'', ''budget'' \<mapsto> PInt 1500,
                       ''timing'' \<mapsto> PStr ''January 10'',
                       ''date_type'' \<mapsto> PStr ''romantic''))
     = Inr (True, [],
            example_plan(''city'' \<mapsto> PStr ''Mumbai'', ''budget'' \<mapsto> PInt 1500,
                         ''timing'' \<mapsto> PStr ''January 10'',
                         ''date_type'' \<mapsto> PStr ''romantic''))"
proof -
  have c: "validate_city (dict_get example_plan ''city'' (PStr [])) = Inr (True, [], ''Mumbai'')"
    by (simp add: dict_get_def example_plan_def field_examples)
  have b: "validate_budget (dict_get example_plan ''budget'' (PInt 0)) = Inr (True, [], 1500)"
    by (simp add: dict_get_def example_plan_def field_examples)
  have t: "validate_date_time example_now (dict_get example_plan ''timing'' (PStr ''today''))
             = Inr (True, warning_sign @ '' Date adjusted to January 10, 2025 (next year)'',
                    ''January 10'')"
    by (simp add: dict_get_def example_plan_def rollover_example)
  have d: "validate_date_type (dict_get example_plan ''date_type'' (PStr []))
             = Inr (True, [], ''romantic'')"
    by (simp add: dict_get_def example_plan_def field_examples)
  have first: "validate_plan example_now example_plan
     = Inr (True, [],
            example_plan(''city'' \<mapsto> PStr ''Mumbai'', ''budget'' \<mapsto> PInt 1500,
                         ''timing'' \<mapsto> PStr ''January 10'',
                         ''date_type'' \<mapsto> PStr ''romantic''))"
    using validate_plan_returns [OF c b t d] by simp
  show ?thesis
    using first validate_plan_idempotent [OF first] by simp
qed

text \<open>
  Claim C10. A key that the plan does not have is seeded before its field is validated.
  Whenever the plan validator returns \<open>(all_valid, diagnostic, corrected plan)\<close>:
  if the city is missing, the result is that of the plan with the city \<open>""\<close>,
  \<open>all_valid\<close> is false, the corrected city is \<open>Bangalore\<close> and the diagnostic begins with
  \<open>City not specified\<close>; if the budget is missing, the result is that of the plan with the
  budget 0, \<open>all_valid\<close> is false, the corrected budget is 500 (not the default 2000) and the
  diagnostic contains the message of a budget too low; if the timing is missing, the result
  is that of the plan with the timing \<open>today\<close>, the corrected timing is \<open>today\<close>, and flag
  and diagnostic are those of the other three fields alone; if the date type is missing,
  the result is that of the plan with the date type \<open>""\<close>, \<open>all_valid\<close> is false, the
  corrected date type is \<open>casual\<close> and the diagnostic ends with the message of a date type
  not specified.
\<close>

theorem missing_keys_seeded:
  assumes "validate_plan now plan = Inr (v, msg, P)"
  shows "(plan ''city'' = None \<longrightarrow>
            validate_plan now (plan(''city'' \<mapsto> PStr [])) = Inr (v, msg, P)
          \<and> \<not> v \<and> P ''city'' = Some (PStr ''Bangalore'')
          \<and> (\<exists>rest. msg = ''City not specified'' @ rest))
       \<and> (plan ''budget'' = None \<longrightarrow>
            validate_plan now (plan(''budget'' \<mapsto> PInt 0)) = Inr (v, msg, P)
          \<and> \<not> v \<and> P ''budget'' = Some (PInt 500)
          \<and> str_contains (''Budget too low (minimum '' @ rupee @ ''500). Adjusted to '' @ rupee
                            @ ''500.'') msg)
       \<and> (plan ''timing'' = None \<longrightarrow>
            validate_plan now (plan(''timing'' \<mapsto> PStr ''today'')) = Inr (v, msg, P)
          \<and> P ''timing'' = Some (PStr ''today'')
          \<and> (\<exists>cv cm cc bv bm bc dv dm dc.
                validate_city (dict_get plan ''city'' (PStr [])) = Inr (cv, cm, cc)
              \<and> validate_budget (dict_get plan ''budget'' (PInt 0)) = Inr (bv, bm, bc)
              \<and> validate_date_type (dict_get plan ''date_type'' (PStr [])) = Inr (dv, dm, dc)
              \<and> v = (cv \<and> bv \<and> dv)
              \<and> msg = join '' | ''
                        (map snd (filter (\<lambda>r. \<not> fst r) [(cv, cm), (bv, bm), (dv, dm)]))))
       \<and> (plan ''date_type'' = None \<longrightarrow>
            validate_plan now (plan(''date_type'' \<mapsto> PStr [])) = Inr (v, msg, P)
          \<and> \<not> v \<and> P ''date_type'' = Some (PStr ''casual'')
          \<and> (\<exists>pre. msg = pre @ ''Date type not specified. Using '' @ apostrophe @ ''casual''
                              @ apostrophe @ ''.''))"
proof -
  from validate_plan_fields [OF assms] obtain cv cm cc bv bm bc tv tm tc dv dm dc where
      c: "validate_city (dict_get plan ''city'' (PStr [])) = Inr (cv, cm, cc)"
    and b: "validate_budget (dict_get plan ''budget'' (PInt 0)) = Inr (bv, bm, bc)"
    and t: "validate_date_time now (dict_get plan ''timing'' (PStr ''today'')) = Inr (tv, tm, tc)"
    and d: "validate_date_type (dict_get plan ''date_type'' (PStr [])) = Inr (dv, dm, dc)"
    by blast
  from assms validate_plan_assembly [OF c b t d]
  have v: "v = (cv \<and> bv \<and> tv \<and> dv)"
    and msg: "msg = join '' | ''
                (map snd (filter (\<lambda>r. \<not> fst r) [(cv, cm), (bv, bm), (tv, tm), (dv, dm)]))"
    and P: "P = plan(''city'' \<mapsto> PStr cc, ''budget'' \<mapsto> PInt bc,
                     ''timing'' \<mapsto> PStr tc, ''date_type'' \<mapsto> PStr dc)"
    by simp_all
  have city: "validate_plan now (plan(''city'' \<mapsto> PStr [])) = Inr (v, msg, P)
          \<and> \<not> v \<and> P ''city'' = Some (PStr ''Bangalore'')
          \<and> (\<exists>rest. msg = ''City not specified'' @ rest)"
    if missing: "plan ''city'' = None"
  proof -
    from missing c have r: "\<not> cv" "cm = ''City not specified''" "cc = ''Bangalore''"
      by (simp_all add: dict_get_def field_examples)
    have m: "\<exists>rest. msg = ''City not specified'' @ rest"
      unfolding msg using r(1,2)
        join_first [of "'' | ''" cm
          "map snd (filter (\<lambda>r. \<not> fst r) [(bv, bm), (tv, tm), (dv, dm)])"]
      by simp
    have seed: "validate_plan now (plan(''city'' \<mapsto> PStr [])) = validate_plan now plan"
      by (rule validate_plan_seed) (simp_all add: missing)
    with r assms m show ?thesis
      by (simp add: v P)
  qed
  have budget: "validate_plan now (plan(''budget'' \<mapsto> PInt 0)) = Inr (v, msg, P)
          \<and> \<not> v \<and> P ''budget'' = Some (PInt 500)
          \<and> str_contains (''Budget too low (minimum '' @ rupee @ ''500). Adjusted to '' @ rupee
                            @ ''500.'') msg"
    if missing: "plan ''budget'' = None"
  proof -
    from missing b have r: "\<not> bv"
        "bm = ''Budget too low (minimum '' @ rupee @ ''500). Adjusted to '' @ rupee @ ''500.''"
        "bc = 500"
      by (simp_all add: dict_get_def field_examples)
    have "bm \<in> set (map snd (filter (\<lambda>r. \<not> fst r) [(cv, cm), (bv, bm), (tv, tm), (dv, dm)]))"
      using r(1) by simp
    from join_contains [OF this, of "'' | ''"] have m: "str_contains bm msg"
      by (simp only: msg)
    have seed: "validate_plan now (plan(''budget'' \<mapsto> PInt 0)) = validate_plan now plan"
      by (rule validate_plan_seed) (simp_all add: missing)
    with r assms m show ?thesis
      by (simp add: v P)
  qed
  have timing: "validate_plan now (plan(''timing'' \<mapsto> PStr ''today'')) = Inr (v, msg, P)
          \<and> P ''timing'' = Some (PStr ''today'')
          \<and> (\<exists>cv cm cc bv bm bc dv dm dc.
                validate_city (dict_get plan ''city'' (PStr [])) = Inr (cv, cm, cc)
              \<and> validate_budget (dict_get plan ''budget'' (PInt 0)) = Inr (bv, bm, bc)
              \<and> validate_date_type (dict_get plan ''date_type'' (PStr [])) = Inr (dv, dm, dc)
              \<and> v = (cv \<and> bv \<and> dv)
              \<and> msg = join '' | ''
                        (map snd (filter (\<lambda>r. \<not> fst r) [(cv, cm), (bv, bm), (dv, dm)])))"
    if missing: "plan ''timing'' = None"
  proof -
    from missing t have r: "tv" "tc = ''today''"
      by (simp_all add: dict_get_def field_examples)
    from r(1) have "v = (cv \<and> bv \<and> dv)"
        "msg = join '' | '' (map snd (filter (\<lambda>r. \<not> fst r) [(cv, cm), (bv, bm), (dv, dm)]))"
      by (simp_all add: v msg)
    with c b d have m: "\<exists>cv cm cc bv bm bc dv dm dc.
                validate_city (dict_get plan ''city'' (PStr [])) = Inr (cv, cm, cc)
              \<and> validate_budget (dict_get plan ''budget'' (PInt 0)) = Inr (bv, bm, bc)
              \<and> validate_date_type (dict_get plan ''date_type'' (PStr [])) = Inr (dv, dm, dc)
              \<and> v = (cv \<and> bv \<and> dv)
              \<and> msg = join '' | ''
                        (map snd (filter (\<lambda>r. \<not> fst r) [(cv, cm), (bv, bm), (dv, dm)]))"
      by blast
    have seed: "validate_plan now (plan(''timing'' \<mapsto> PStr ''today'')) = validate_plan now plan"
      by (rule validate_plan_seed) (simp_all add: missing)
    with r assms m show ?thesis
      by (simp add: P)
  qed
  have date_type: "validate_plan now (plan(''date_type'' \<mapsto> PStr [])) = Inr (v, msg, P)
          \<and> \<not> v \<and> P ''date_type'' = Some (PStr ''casual'')
          \<and> (\<exists>pre. msg = pre @ ''Date type not specified. Using '' @ apostrophe @ ''casual''
                              @ apostrophe @ ''.'')"
    if missing: "plan ''date_type'' = None"
  proof -
    from missing d have r: "\<not> dv"
        "dm = ''Date type not specified. Using '' @ apostrophe @ ''casual'' @ apostrophe @ ''.''"
        "dc = ''casual''"
      by (auto simp: dict_get_def field_examples)
    have "map snd (filter (\<lambda>r. \<not> fst r) [(cv, cm), (bv, bm), (tv, tm), (dv, dm)])
            = map snd (filter (\<lambda>r. \<not> fst r) [(cv, cm), (bv, bm), (tv, tm)]) @ [dm]"
      using r(1) by simp
    with join_last [of "'' | ''" "map snd (filter (\<lambda>r. \<not> fst r) [(cv, cm), (bv, bm), (tv, tm)])" dm]
    have m: "\<exists>pre. msg = pre @ dm"
      by (simp only: msg)
    have seed: "validate_plan now (plan(''date_type'' \<mapsto> PStr [])) = validate_plan now plan"
      by (rule validate_plan_seed) (simp_all add: missing)
    with r assms m show ?thesis
      by (simp add: v P)
  qed
  from city budget timing date_type show ?thesis
    by blast
qed

theorem missing_keys_seeded_witness:
  "validate_plan example_now Map.empty
     = Inr (False,
            join '' | ''
              [''City not specified'',
               ''Budget too low (minimum '' @ rupee @ ''500). Adjusted to '' @ rupee @ ''500.'',
               ''Date type not specified. Using '' @ apostrophe @ ''casual'' @ apostrophe @ ''.''],
            [''city'' \<mapsto> PStr ''Bangalore'', ''budget'' \<mapsto> PInt 500,
             ''timing'' \<mapsto> PStr ''today'', ''date_type'' \<mapsto> PStr ''casual''])
   \<and> validate_plan example_now [''city'' \<mapsto> PStr []] = validate_plan example_now Map.empty
   \<and> validate_plan example_now [''budget'' \<mapsto> PInt 0] = validate_plan example_now Map.empty
   \<and> validate_plan example_now [''timing'' \<mapsto> PStr ''today''] = validate_plan example_now Map.empty
   \<and> validate_plan example_now [''date_type'' \<mapsto> PStr []] = validate_plan example_now Map.empty"
proof -
  have c: "validate_city (dict_get Map.empty ''city'' (PStr []))
             = Inr (False, ''City not specified'', ''Bangalore'')"
    by (simp add: dict_get_def field_examples)
  have b: "validate_budget (dict_get Map.empty ''budget'' (PInt 0))
             = Inr (False, ''Budget too low (minimum '' @ rupee @ ''500). Adjusted to '' @ rupee
                      @ ''500.'', 500)"
    by (simp add: dict_get_def field_examples)
  have t: "validate_date_time example_now (dict_get Map.empty ''timing'' (PStr ''today''))
             = Inr (True, [], ''today'')"
    by (simp add: dict_get_def field_examples)
  have d: "validate_date_type (dict_get Map.empty ''date_type'' (PStr []))
             = Inr (False, ''Date type not specified. Using '' @ apostrophe @ ''casual''
                      @ apostrophe @ ''.'', ''casual'')"
    by (simp add: dict_get_def field_examples)
  have first: "validate_plan example_now Map.empty
     = Inr (False,
            join '' | ''
              [''City not specified'',
               ''Budget too low (minimum '' @ rupee @ ''500). Adjusted to '' @ rupee @ ''500.'',
               ''Date type not specified. Using '' @ apostrophe @ ''casual'' @ apostrophe @ ''.''],
            [''city'' \<mapsto> PStr ''Bangalore'', ''budget'' \<mapsto> PInt 500,
             ''timing'' \<mapsto> PStr ''today'', ''date_type'' \<mapsto> PStr ''casual''])"
    using validate_plan_returns [OF c b t d] by simp
  show ?thesis
    using first missing_keys_seeded [OF first] by simp
qed

subsection \<open>What the corrected plan does guarantee\<close>

text \<open>
  Supporting facts for the fully-populated invariant. With string-valued \<open>city\<close>,
  \<open>timing\<close> and \<open>date_type\<close> and a budget whose \<open>int()\<close> does not overflow,
  \<open>validate_plan\<close> returns; and whenever it returns, the corrected city is in the
  allow-list, the corrected budget is an integer in [500, 50000], the corrected date type is
  not blank, and the corrected timing is empty only when the plan's own timing was the empty
  string.
\<close>

lemma attempt_error: "attempt now timing matched fmt = Inl e \<Longrightarrow> e = ValueError"
  by (auto simp: attempt_def decide_def replace_year_def
      dest: resolve_error mk_date_error split: sum.splits if_splits)

lemma scan_returns: "\<exists>r. scan_patterns now timing low ps = Inr r"
proof (induction ps)
  case Nil
  show ?case by auto
next
  case (Cons pf ps)
  show ?case
  proof (cases "re_search (fst pf) low")
    case None
    with Cons show ?thesis by simp
  next
    case (Some matched)
    show ?thesis
    proof (cases "attempt now timing matched (snd pf)")
      case (Inl e)
      then have "e = ValueError" by (rule attempt_error)
      with Some Inl Cons show ?thesis by simp
    next
      case (Inr r)
      with Some show ?thesis by (cases r) auto
    qed
  qed
qed

lemma validate_date_time_returns: "\<exists>r. validate_date_time now (PStr timing) = Inr r"
  using scan_returns [of now timing "strip (lower timing)" date_patterns]
  by (auto simp: validate_date_time_unfold)

lemma validate_city_returns: "\<exists>r. validate_city (PStr city) = Inr r"
  by (auto simp: validate_city_def Let_def)

lemma validate_date_type_returns: "\<exists>r. validate_date_type (PStr date_type) = Inr r"
  by (auto simp: validate_date_type_def Let_def)

lemma validate_budget_returns:
  "py_int v \<noteq> Inl OverflowError \<Longrightarrow> py_int v \<noteq> Inl AttributeError \<Longrightarrow>
   \<exists>r. validate_budget v = Inr r"
  by (auto simp: validate_budget_def split: sum.splits error.splits)

lemma py_int_error: "py_int v \<noteq> Inl AttributeError"
proof (cases v)
  case (PFloat f)
  then show ?thesis by (cases f) simp_all
next
  case (PStr s)
  then show ?thesis using int_of_str_error [of s AttributeError] by auto
qed simp_all

lemma validate_plan_never_raises:
  assumes "dict_get plan ''city'' (PStr []) = PStr city"
    and "py_int (dict_get plan ''budget'' (PInt 0)) \<noteq> Inl OverflowError"
    and "dict_get plan ''timing'' (PStr ''today'') = PStr timing"
    and "dict_get plan ''date_type'' (PStr []) = PStr date_type"
  shows "\<exists>v msg P. validate_plan now plan = Inr (v, msg, P)"
proof -
  obtain cv cm cc where c: "validate_city (dict_get plan ''city'' (PStr [])) = Inr (cv, cm, cc)"
    using validate_city_returns [of city] assms(1) by auto
  obtain bv bm bc where b: "validate_budget (dict_get plan ''budget'' (PInt 0)) = Inr (bv, bm, bc)"
    using validate_budget_returns [OF assms(2) py_int_error] by auto
  obtain tv tm tc where
    t: "validate_date_time now (dict_get plan ''timing'' (PStr ''today'')) = Inr (tv, tm, tc)"
    using validate_date_time_returns [of now timing] assms(3) by auto
  obtain dv dm dc where
    d: "validate_date_type (dict_get plan ''date_type'' (PStr [])) = Inr (dv, dm, dc)"
    using validate_date_type_returns [of date_type] assms(4) by auto
  show ?thesis
    using validate_plan_returns [OF c b t d] by (auto simp: Let_def)
qed

lemma strftime_nonempty:
  assumes "valid_date (year nd) (month nd) (day nd)"
  shows "strftime nd ''%B %d'' \<noteq> []"
proof -
  from assms have "1 \<le> month nd" "month nd \<le> 12"
    by (simp_all add: valid_date_def)
  then show ?thesis by (simp add: strftime_month_day)
qed

lemma corrected_plan_domains:
  assumes "validate_plan now plan = Inr (v, msg, P)"
  shows "\<exists>cc bc tc dc.
           P ''city'' = Some (PStr cc) \<and> strip (lower cc) \<in> set SUPPORTED_CITIES
         \<and> P ''budget'' = Some (PInt bc) \<and> 500 \<le> bc \<and> bc \<le> 50000
         \<and> P ''timing'' = Some (PStr tc) \<and> (tc = [] \<longrightarrow> plan ''timing'' = Some (PStr []))
         \<and> P ''date_type'' = Some (PStr dc) \<and> strip (lower dc) \<noteq> []"
proof -
  from validate_plan_fields [OF assms] obtain cv cm cc bv bm bc tv tm tc dv dm dc where
      c: "validate_city (dict_get plan ''city'' (PStr [])) = Inr (cv, cm, cc)"
    and b: "validate_budget (dict_get plan ''budget'' (PInt 0)) = Inr (bv, bm, bc)"
    and t: "validate_date_time now (dict_get plan ''timing'' (PStr ''today'')) = Inr (tv, tm, tc)"
    and d: "validate_date_type (dict_get plan ''date_type'' (PStr [])) = Inr (dv, dm, dc)"
    by blast
  from assms validate_plan_returns [OF c b t d]
  have P: "P = plan(''city'' \<mapsto> PStr cc, ''budget'' \<mapsto> PInt bc,
                    ''timing'' \<mapsto> PStr tc, ''date_type'' \<mapsto> PStr dc)"
    by (simp add: Let_def split: if_splits)
  have city: "strip (lower cc) \<in> set SUPPORTED_CITIES"
    using city_revalidates [OF c] by (auto simp: validate_city_def Let_def split: if_splits)
  have date_type: "strip (lower dc) \<noteq> []"
    using date_type_revalidates [OF d]
    by (auto simp: validate_date_type_def Let_def split: if_splits)
  have timing: "plan ''timing'' = Some (PStr [])" if "tc = []"
  proof -
    from validate_date_time_result [OF t] that strftime_nonempty
    have "dict_get plan ''timing'' (PStr ''today'') = PStr []"
      by auto
    then show ?thesis
      by (cases "plan ''timing''") (simp_all add: dict_get_def)
  qed
  show ?thesis
    using city budget_in_range [OF b] timing date_type by (simp add: P)
qed

end
